theory Spec2Isabelle
  imports Main
begin

section \<open>The package module \<open>lasagne/layers/__init__.py\<close>\<close>

subsection \<open>Abstract syntax of module bodies\<close>

text \<open>
  The source file is a Python module whose body is a documentation string followed by ten
  statements of the form \<open>from .m import *\<close>. The body is embedded as a value of the
  statement syntax below, which follows the node kinds of Python's grammar so that the
  absence of a construct is a property of the embedded body and not of the syntax type.
\<close>

type_synonym name = string

datatype expr =
    Str string
  | Name name
  | Attribute expr name
  | Call expr "expr list"
  | Lambda expr
  | Await expr
  | Yield expr

datatype import_alias = Alias (alias_name: name) (asname: "name option")

datatype stmt =
    Expr expr
  | Assign "expr list" expr
  | AugAssign expr expr
  | Delete "expr list"
  | Global "name list"
  | Pass
  | Import "import_alias list"
  | ImportFrom "name option" "import_alias list" nat
  | FunctionDef name "stmt list"
  | AsyncFunctionDef name "stmt list"
  | ClassDef name "expr list" "stmt list"
  | Return "expr option"
  | Raise "expr option"
  | Assert expr
  | If expr "stmt list" "stmt list"
  | While expr "stmt list" "stmt list"
  | For expr expr "stmt list" "stmt list"
  | AsyncFor expr expr "stmt list" "stmt list"
  | With "expr list" "stmt list"
  | AsyncWith "expr list" "stmt list"
  | Try "stmt list" "handler list" "stmt list" "stmt list"
and handler =
    ExceptHandler "expr option" "stmt list"

text \<open>The statement \<open>from .m import *\<close>: module \<open>m\<close>, the single alias \<open>*\<close>, level 1.\<close>

definition star_import :: "name \<Rightarrow> stmt" where
  "star_import m = ImportFrom (Some m) [Alias ''*'' None] 1"

text \<open>
  The module body, statement by statement. Lines 1 to 175 of the source are one
  string expression, the documentation string; its text is the parameter \<open>doc\<close>.
  Lines 178 to 187 are the ten import statements.
\<close>

definition module_body :: "string \<Rightarrow> stmt list" where
  "module_body doc =
    [ Expr (Str doc),
      ImportFrom (Some ''base'') [Alias ''*'' None] 1,
      ImportFrom (Some ''helper'') [Alias ''*'' None] 1,
      ImportFrom (Some ''input'') [Alias ''*'' None] 1,
      ImportFrom (Some ''dense'') [Alias ''*'' None] 1,
      ImportFrom (Some ''noise'') [Alias ''*'' None] 1,
      ImportFrom (Some ''conv'') [Alias ''*'' None] 1,
      ImportFrom (Some ''pool'') [Alias ''*'' None] 1,
      ImportFrom (Some ''shape'') [Alias ''*'' None] 1,
      ImportFrom (Some ''merge'') [Alias ''*'' None] 1,
      ImportFrom (Some ''normalization'') [Alias ''*'' None] 1 ]"

subsection \<open>Static analysis of a module body\<close>

text \<open>Every statement of a body, at any nesting depth, in source order.\<close>

primrec all_stmts :: "stmt \<Rightarrow> stmt list"
  and handler_stmts :: "handler \<Rightarrow> stmt list" where
  "all_stmts (Expr e) = [Expr e]"
| "all_stmts (Assign ts e) = [Assign ts e]"
| "all_stmts (AugAssign t e) = [AugAssign t e]"
| "all_stmts (Delete ts) = [Delete ts]"
| "all_stmts (Global ns) = [Global ns]"
| "all_stmts Pass = [Pass]"
| "all_stmts (Import as) = [Import as]"
| "all_stmts (ImportFrom m as l) = [ImportFrom m as l]"
| "all_stmts (FunctionDef n b) = FunctionDef n b # concat (map all_stmts b)"
| "all_stmts (AsyncFunctionDef n b) = AsyncFunctionDef n b # concat (map all_stmts b)"
| "all_stmts (ClassDef n bs b) = ClassDef n bs b # concat (map all_stmts b)"
| "all_stmts (Return e) = [Return e]"
| "all_stmts (Raise e) = [Raise e]"
| "all_stmts (Assert e) = [Assert e]"
| "all_stmts (If c b oe) = If c b oe # concat (map all_stmts b) @ concat (map all_stmts oe)"
| "all_stmts (While c b oe) =
     While c b oe # concat (map all_stmts b) @ concat (map all_stmts oe)"
| "all_stmts (For t i b oe) =
     For t i b oe # concat (map all_stmts b) @ concat (map all_stmts oe)"
| "all_stmts (AsyncFor t i b oe) =
     AsyncFor t i b oe # concat (map all_stmts b) @ concat (map all_stmts oe)"
| "all_stmts (With cs b) = With cs b # concat (map all_stmts b)"
| "all_stmts (AsyncWith cs b) = AsyncWith cs b # concat (map all_stmts b)"
| "all_stmts (Try b hs oe fb) =
     Try b hs oe fb # concat (map all_stmts b) @ concat (map handler_stmts hs)
       @ concat (map all_stmts oe) @ concat (map all_stmts fb)"
| "handler_stmts (ExceptHandler t b) = concat (map all_stmts b)"

definition body_stmts :: "stmt list \<Rightarrow> stmt list" where
  "body_stmts body = concat (map all_stmts body)"

text \<open>The import requests of one statement: module, imported names, relative level.\<close>

fun import_requests :: "stmt \<Rightarrow> (name option \<times> name list \<times> nat) list" where
  "import_requests (Import as) = map (\<lambda>a. (Some (alias_name a), [], 0)) as"
| "import_requests (ImportFrom m as l) = [(m, map alias_name as, l)]"
| "import_requests _ = []"

definition imports_of :: "stmt list \<Rightarrow> (name option \<times> name list \<times> nat) list" where
  "imports_of body = concat (map import_requests (body_stmts body))"

text \<open>The submodules that a body imports by wildcard, relative to its own package.\<close>

fun star_target :: "name option \<times> name list \<times> nat \<Rightarrow> name list" where
  "star_target (Some m, ns, l) = (if ns = [''*''] \<and> l = 1 then [m] else [])"
| "star_target (None, ns, l) = []"

definition star_imported :: "stmt list \<Rightarrow> name list" where
  "star_imported body = concat (map star_target (imports_of body))"

text \<open>Statements that bind a name of the module's own: definitions and assignments.\<close>

fun is_function_def :: "stmt \<Rightarrow> bool" where
  "is_function_def (FunctionDef n b) = True"
| "is_function_def (AsyncFunctionDef n b) = True"
| "is_function_def _ = False"

fun is_class_def :: "stmt \<Rightarrow> bool" where
  "is_class_def (ClassDef n bs b) = True"
| "is_class_def _ = False"

fun is_variable_binding :: "stmt \<Rightarrow> bool" where
  "is_variable_binding (Assign ts e) = True"
| "is_variable_binding (AugAssign t e) = True"
| "is_variable_binding (For t i b oe) = True"
| "is_variable_binding (AsyncFor t i b oe) = True"
| "is_variable_binding (With cs b) = True"
| "is_variable_binding (AsyncWith cs b) = True"
| "is_variable_binding (Global ns) = True"
| "is_variable_binding _ = False"

fun is_import :: "stmt \<Rightarrow> bool" where
  "is_import (Import as) = True"
| "is_import (ImportFrom m as l) = True"
| "is_import _ = False"

fun is_docstring :: "stmt \<Rightarrow> bool" where
  "is_docstring (Expr (Str s)) = True"
| "is_docstring _ = False"

text \<open>Statements that raise, check or handle an error.\<close>

fun is_raise :: "stmt \<Rightarrow> bool" where
  "is_raise (Raise e) = True"
| "is_raise (Assert e) = True"
| "is_raise _ = False"

fun is_error_handler :: "stmt \<Rightarrow> bool" where
  "is_error_handler (Try b hs oe fb) = True"
| "is_error_handler _ = False"

text \<open>Statements that branch: an error-handling branch would be one of these.\<close>

fun is_branch :: "stmt \<Rightarrow> bool" where
  "is_branch (If c b oe) = True"
| "is_branch (While c b oe) = True"
| "is_branch (For t i b oe) = True"
| "is_branch (AsyncFor t i b oe) = True"
| "is_branch (Try b hs oe fb) = True"
| "is_branch _ = False"

text \<open>
  Asynchronous statements, and the statement under which a lock is held (\<open>with\<close>).
\<close>

fun is_async :: "stmt \<Rightarrow> bool" where
  "is_async (AsyncFunctionDef n b) = True"
| "is_async (AsyncFor t i b oe) = True"
| "is_async (AsyncWith cs b) = True"
| "is_async _ = False"

fun is_with :: "stmt \<Rightarrow> bool" where
  "is_with (With cs b) = True"
| "is_with (AsyncWith cs b) = True"
| "is_with _ = False"

text \<open>The expressions of a statement, and every subexpression of an expression.\<close>

primrec sub_exprs :: "expr \<Rightarrow> expr list" where
  "sub_exprs (Str s) = [Str s]"
| "sub_exprs (Name n) = [Name n]"
| "sub_exprs (Attribute e n) = Attribute e n # sub_exprs e"
| "sub_exprs (Call f args) = Call f args # sub_exprs f @ concat (map sub_exprs args)"
| "sub_exprs (Lambda e) = Lambda e # sub_exprs e"
| "sub_exprs (Await e) = Await e # sub_exprs e"
| "sub_exprs (Yield e) = Yield e # sub_exprs e"

fun opt_expr :: "expr option \<Rightarrow> expr list" where
  "opt_expr None = []"
| "opt_expr (Some e) = [e]"

fun handler_exprs :: "handler \<Rightarrow> expr list" where
  "handler_exprs (ExceptHandler t b) = opt_expr t"

fun stmt_exprs :: "stmt \<Rightarrow> expr list" where
  "stmt_exprs (Expr e) = [e]"
| "stmt_exprs (Assign ts e) = ts @ [e]"
| "stmt_exprs (AugAssign t e) = [t, e]"
| "stmt_exprs (Delete ts) = ts"
| "stmt_exprs (ClassDef n bs b) = bs"
| "stmt_exprs (Return e) = opt_expr e"
| "stmt_exprs (Raise e) = opt_expr e"
| "stmt_exprs (Assert e) = [e]"
| "stmt_exprs (If c b oe) = [c]"
| "stmt_exprs (While c b oe) = [c]"
| "stmt_exprs (For t i b oe) = [t, i]"
| "stmt_exprs (AsyncFor t i b oe) = [t, i]"
| "stmt_exprs (With cs b) = cs"
| "stmt_exprs (AsyncWith cs b) = cs"
| "stmt_exprs (Try b hs oe fb) = concat (map handler_exprs hs)"
| "stmt_exprs _ = []"

definition body_exprs :: "stmt list \<Rightarrow> expr list" where
  "body_exprs body = concat (map sub_exprs (concat (map stmt_exprs (body_stmts body))))"

text \<open>
  Expressions that could create or use a concurrency primitive: a thread or a lock is
  made by a call, an asynchronous result is awaited, a generator yields.
\<close>

fun is_call :: "expr \<Rightarrow> bool" where
  "is_call (Call f args) = True"
| "is_call _ = False"

fun is_await :: "expr \<Rightarrow> bool" where
  "is_await (Await e) = True"
| "is_await (Yield e) = True"
| "is_await _ = False"

text \<open>
  An import request that leaves the package: an absolute import (level 0), which is how
  a module of the standard library such as \<open>threading\<close> would be reached, or a relative
  import above the package itself (level 2 or more).
\<close>

fun leaves_package :: "name option \<times> name list \<times> nat \<Rightarrow> bool" where
  "leaves_package (m, ns, l) = (l \<noteq> 1)"

subsection \<open>Executing the module body\<close>

text \<open>
  Values bound in a module namespace: \<open>None\<close>, a string, a module object (named by its
  submodule name) and any other object, of the parameter type \<open>'v\<close>.
\<close>

datatype 'v pyval = PyNone | PyStr string | PyModule name | PyObj 'v

type_synonym 'v namespace = "name \<rightharpoonup> 'v pyval"

text \<open>A loaded module object: its attributes, and its \<open>__all__\<close> list when it has one.\<close>

record 'v module_obj =
  attrs :: "'v namespace"
  all_list :: "name list option"

text \<open>
  The ten submodules are outside the source file, so the package directory is a
  parameter. It holds, for each submodule file, what executing the file does as far as
  the package can observe it: the sibling submodules that the body imports, in order,
  and how the body ends, by raising an exception or with the module object.
\<close>

record ('e, 'v) submodule =
  sibling_imports :: "name list"
  outcome :: "'e + 'v module_obj"

type_synonym ('e, 'v) package_dir = "(name \<times> ('e, 'v) submodule) list"

datatype 'e exec_error = Raised 'e | AttributeError name | ModuleNotFound name | Unsupported

text \<open>
  The state of an import: the submodules of the package that are in \<open>sys.modules\<close>,
  loaded or being loaded, the latest first, and the namespace of the package.
\<close>

record 'v import_state =
  loaded :: "name list"
  package_ns :: "'v namespace"

text \<open>
  The names that \<open>import *\<close> takes from a module: those listed in \<open>__all__\<close> when it is
  defined (a listed name that the module lacks raises \<open>AttributeError\<close>), otherwise all
  names that do not begin with an underscore.
\<close>

definition is_public :: "name \<Rightarrow> bool" where
  "is_public n = (case n of [] \<Rightarrow> True | c # cs \<Rightarrow> c \<noteq> CHR ''_'')"

definition star_exports :: "'v module_obj \<Rightarrow> 'e exec_error + 'v namespace" where
  "star_exports md =
    (case all_list md of
       Some ns \<Rightarrow>
         (case find (\<lambda>n. attrs md n = None) ns of
            Some n \<Rightarrow> Inl (AttributeError n)
          | None \<Rightarrow> Inr (\<lambda>n. if n \<in> set ns then attrs md n else None))
     | None \<Rightarrow> Inr (\<lambda>n. if is_public n then attrs md n else None))"

definition remove_module :: "name \<Rightarrow> ('e, 'v) package_dir \<Rightarrow> ('e, 'v) package_dir" where
  "remove_module m dir = filter (\<lambda>p. fst p \<noteq> m) dir"

text \<open>
  Loading the submodule \<open>m\<close> of the package, as the import system does it. A submodule
  that is in \<open>sys.modules\<close> already, loaded earlier or being loaded further up in a
  circular import, is not executed again, and nothing is bound. Otherwise the submodule
  is entered in \<open>sys.modules\<close> and its body runs: the sibling imports are loaded in the
  same way, then the body raises or ends. When it ends, the import system binds the
  module object under the name \<open>m\<close> in the package namespace: this happens once, when
  the submodule is first loaded, whichever statement caused the load. A file that does
  not exist raises. Any exception ends the whole import. The directory passed down is
  without the submodules being loaded, which are found in \<open>sys.modules\<close> first.
\<close>

function load_submodule ::
    "('e, 'v) package_dir \<Rightarrow> name \<Rightarrow> 'v import_state \<Rightarrow> 'e exec_error + 'v import_state"
  and load_siblings ::
    "('e, 'v) package_dir \<Rightarrow> name list \<Rightarrow> 'v import_state \<Rightarrow> 'e exec_error + 'v import_state"
  where
  "load_submodule dir m st =
    (if m \<in> set (loaded st) then Inr st
     else
       (case map_of dir m of
          None \<Rightarrow> Inl (ModuleNotFound m)
        | Some sub \<Rightarrow>
            (case load_siblings (remove_module m dir) (sibling_imports sub)
                    (st\<lparr>loaded := m # loaded st\<rparr>) of
               Inl e \<Rightarrow> Inl e
             | Inr st' \<Rightarrow>
                 (case outcome sub of
                    Inl e \<Rightarrow> Inl (Raised e)
                  | Inr md \<Rightarrow> Inr (st'\<lparr>package_ns := (package_ns st')(m \<mapsto> PyModule m)\<rparr>)))))"
| "load_siblings dir [] st = Inr st"
| "load_siblings dir (d # ds) st =
    (case load_submodule dir d st of
       Inl e \<Rightarrow> Inl e
     | Inr st' \<Rightarrow> load_siblings dir ds st')"
  by pat_completeness auto

termination
proof (relation "inv_image (less_than <*lex*> less_than)
    (\<lambda>x. case x of Inl (dir, m, st) \<Rightarrow> (length dir, 0)
                  | Inr (dir, ds, st) \<Rightarrow> (length dir, Suc (length ds)))", goal_cases)
  case 1
  show ?case by (intro wf_inv_image wf_lex_prod wf_less_than)
next
  case (2 dir m st sub)
  then have "(m, sub) \<in> set dir" by (auto dest: map_of_SomeD)
  then have "length (remove_module m dir) < length dir"
    unfolding remove_module_def by (rule length_filter_less) simp
  then show ?case by simp
next
  case 3
  then show ?case by simp
next
  case 4
  then show ?case by simp
qed

declare load_submodule.simps [simp del]

text \<open>The star-exports of the submodule \<open>m\<close>, taken from its module object.\<close>

definition submodule_exports :: "('e, 'v) package_dir \<Rightarrow> name \<Rightarrow> 'e exec_error + 'v namespace" where
  "submodule_exports dir m =
    (case map_of dir m of
       None \<Rightarrow> Inl (ModuleNotFound m)
     | Some sub \<Rightarrow>
         (case outcome sub of Inl e \<Rightarrow> Inl (Raised e) | Inr md \<Rightarrow> star_exports md))"

text \<open>
  One statement of the body. A string expression has no effect. \<open>from .m import *\<close> loads
  the submodule \<open>m\<close> of the package as above and then binds each star-exported name in
  the package namespace, replacing any binding the name had. An exception raised on the
  way ends the execution. Statement forms that the module does not use are given no
  meaning.
\<close>

fun exec_stmt ::
  "('e, 'v) package_dir \<Rightarrow> stmt \<Rightarrow> 'v import_state \<Rightarrow> 'e exec_error + 'v import_state" where
  "exec_stmt dir (Expr (Str s)) st = Inr st"
| "exec_stmt dir (ImportFrom (Some m) as l) st =
    (if as = [Alias ''*'' None] \<and> l = 1 then
       (case load_submodule dir m st of
          Inl e \<Rightarrow> Inl e
        | Inr st' \<Rightarrow>
            (case submodule_exports dir m of
               Inl e \<Rightarrow> Inl e
             | Inr ex \<Rightarrow> Inr (st'\<lparr>package_ns := package_ns st' ++ ex\<rparr>)))
     else Inl Unsupported)"
| "exec_stmt dir _ st = Inl Unsupported"

fun exec_body ::
  "('e, 'v) package_dir \<Rightarrow> stmt list \<Rightarrow> 'v import_state \<Rightarrow> 'e exec_error + 'v import_state" where
  "exec_body dir [] st = Inr st"
| "exec_body dir (s # ss) st =
    (case exec_stmt dir s st of Inl e \<Rightarrow> Inl e | Inr st' \<Rightarrow> exec_body dir ss st')"

text \<open>A leading string expression is the module's documentation string.\<close>

fun docstring_of :: "stmt list \<Rightarrow> 'v pyval" where
  "docstring_of (Expr (Str d) # ss) = PyStr d"
| "docstring_of _ = PyNone"

text \<open>
  Importing the package runs its body. No submodule of the package is loaded before
  the package itself, and the namespace is the one that the import system prepared,
  \<open>init\<close> (holding \<open>__name__\<close>, \<open>__path__\<close> and the like), with \<open>__doc__\<close> set. The import
  yields the final state, or the exception and then no namespace at all.
\<close>

definition initial_state :: "'v namespace \<Rightarrow> stmt list \<Rightarrow> 'v import_state" where
  "initial_state init body = \<lparr>loaded = [], package_ns = init(''__doc__'' \<mapsto> docstring_of body)\<rparr>"

definition import_module ::
  "('e, 'v) package_dir \<Rightarrow> 'v namespace \<Rightarrow> stmt list \<Rightarrow> 'e exec_error + 'v import_state" where
  "import_module dir init body = exec_body dir body (initial_state init body)"

definition import_layers ::
  "('e, 'v) package_dir \<Rightarrow> 'v namespace \<Rightarrow> string \<Rightarrow> 'e exec_error + 'v import_state" where
  "import_layers dir init doc = import_module dir init (module_body doc)"

text \<open>The star-exports of a submodule that loads, and none for one that does not.\<close>

definition exports_of :: "('e, 'v) package_dir \<Rightarrow> name \<Rightarrow> 'v namespace" where
  "exports_of dir m = (case submodule_exports dir m of Inl e \<Rightarrow> Map.empty | Inr ex \<Rightarrow> ex)"

text \<open>
  The submodules in \<open>sys.modules\<close> after the star imports of \<open>ms\<close> have run from the
  state \<open>st\<close>; and the part of a list up to the last element with a property, which
  is empty when no element has it.
\<close>

definition loaded_after ::
  "('e, 'v) package_dir \<Rightarrow> name list \<Rightarrow> 'v import_state \<Rightarrow> name list" where
  "loaded_after dir ms st =
    (case exec_body dir (map star_import ms) st of Inl e \<Rightarrow> [] | Inr st' \<Rightarrow> loaded st')"

definition up_to_last :: "('a \<Rightarrow> bool) \<Rightarrow> 'a list \<Rightarrow> 'a list" where
  "up_to_last P xs = rev (dropWhile (\<lambda>x. \<not> P x) (rev xs))"

text \<open>The submodules named by lines 178 to 187, in source order.\<close>

definition layer_submodules :: "name list" where
  "layer_submodules =
    [''base'', ''helper'', ''input'', ''dense'', ''noise'', ''conv'', ''pool'', ''shape'',
     ''merge'', ''normalization'']"


text \<open>
  What loading does between two states: \<open>sys.modules\<close> grows, the submodules that it
  gains are bound to their module objects and nothing else is bound, and each of them
  is a file of the directory whose body ended without an exception.
\<close>

definition load_effect ::
  "('e, 'v) package_dir \<Rightarrow> 'v import_state \<Rightarrow> 'v import_state \<Rightarrow> bool" where
  "load_effect dir st st' \<longleftrightarrow>
     set (loaded st) \<subseteq> set (loaded st')
     \<and> (\<forall>n. package_ns st' n =
           (if n \<in> set (loaded st') \<and> n \<notin> set (loaded st) then Some (PyModule n)
            else package_ns st n))
     \<and> (\<forall>x \<in> set (loaded st') - set (loaded st).
           \<exists>sub md. map_of dir x = Some sub \<and> outcome sub = Inr md)"

text \<open>
  Sample package directories for concrete runs. In the first, \<open>base\<close> has no \<open>__all__\<close>
  and a private name, \<open>helper\<close> imports \<open>base\<close>, lists two of its three names in
  \<open>__all__\<close> and shares the name \<open>f\<close> with \<open>base\<close>, and the other submodules are empty.
  In the second, \<open>base\<close> imports the siblings \<open>merge\<close>, \<open>shape\<close> and \<open>helper\<close> and
  defines names \<open>shape\<close> and \<open>helper\<close> of its own, and \<open>dense\<close> defines a name \<open>merge\<close>.
  In the third, \<open>helper\<close> and \<open>conv\<close> both fail to import.
\<close>

definition plain_submodule :: "'v namespace \<Rightarrow> ('e, 'v) submodule" where
  "plain_submodule as = \<lparr>sibling_imports = [], outcome = Inr \<lparr>attrs = as, all_list = None\<rparr>\<rparr>"

definition sample_dir :: "(string, nat) package_dir" where
  "sample_dir =
    [ (''base'', plain_submodule
         [''Layer'' \<mapsto> PyObj 0, ''_hidden'' \<mapsto> PyObj 1, ''f'' \<mapsto> PyObj 2]),
      (''helper'',
         \<lparr>sibling_imports = [''base''],
          outcome = Inr \<lparr>attrs = [''f'' \<mapsto> PyObj 3, ''get_output'' \<mapsto> PyObj 4, ''np'' \<mapsto> PyObj 5],
                         all_list = Some [''f'', ''get_output'']\<rparr>\<rparr>),
      (''input'', plain_submodule Map.empty),
      (''dense'', plain_submodule Map.empty),
      (''noise'', plain_submodule Map.empty),
      (''conv'', plain_submodule Map.empty),
      (''pool'', plain_submodule Map.empty),
      (''shape'', plain_submodule Map.empty),
      (''merge'', plain_submodule Map.empty),
      (''normalization'', plain_submodule Map.empty) ]"

definition sibling_dir :: "(string, nat) package_dir" where
  "sibling_dir =
    [ (''base'',
         \<lparr>sibling_imports = [''merge'', ''shape'', ''helper''],
          outcome = Inr \<lparr>attrs = [''shape'' \<mapsto> PyObj 100, ''helper'' \<mapsto> PyObj 99,
                                   ''_m'' \<mapsto> PyModule ''merge''],
                         all_list = None\<rparr>\<rparr>),
      (''helper'', plain_submodule Map.empty),
      (''input'', plain_submodule Map.empty),
      (''dense'', plain_submodule [''merge'' \<mapsto> PyObj 2]),
      (''noise'', plain_submodule Map.empty),
      (''conv'', plain_submodule Map.empty),
      (''pool'', plain_submodule Map.empty),
      (''shape'', plain_submodule Map.empty),
      (''merge'', plain_submodule Map.empty),
      (''normalization'', plain_submodule Map.empty) ]"

definition failing_dir :: "(string, nat) package_dir" where
  "failing_dir =
    [ (''base'', plain_submodule [''Layer'' \<mapsto> PyObj 0]),
      (''helper'', \<lparr>sibling_imports = [''base''], outcome = Inl ''ValueError''\<rparr>),
      (''input'', plain_submodule Map.empty),
      (''dense'', plain_submodule Map.empty),
      (''noise'', plain_submodule Map.empty),
      (''conv'', \<lparr>sibling_imports = [], outcome = Inl ''ImportError''\<rparr>),
      (''pool'', plain_submodule Map.empty),
      (''shape'', plain_submodule Map.empty),
      (''merge'', plain_submodule Map.empty),
      (''normalization'', plain_submodule Map.empty) ]"

definition empty_ns :: "nat namespace" where
  "empty_ns = Map.empty"

section \<open>Layers, parameters and output computation\<close>

text \<open>
  The classes and functions that the documentation string describes (the \<open>Layer\<close> base
  class, its subclasses, \<open>create_param\<close>, \<open>get_output_for\<close> and \<open>get_output\<close>) live in the
  submodules, whose sources are missing. They are modelled here from the
  specification and from the documentation string of the package module.
\<close>

type_synonym layer_id = nat
type_synonym var_id = nat
type_synonym shape = "nat list"
type_synonym kwargs = "name \<rightharpoonup> bool"

subsection \<open>Initializing parameters\<close>

text \<open>
  Modelled from the spec: the parameter specification accepted by a layer constructor,
  whose handling (\<open>create_param\<close> in the absent submodule \<open>base\<close>) is missing. A parameter
  is given as an existing shared variable, as a numeric array, as a callable from the
  desired shape to an array, or as \<open>None\<close>. Arrays are values of the parameter type \<open>'a\<close>;
  a shared variable is a reference into the store of variable values.
\<close>

datatype 'a param_spec =
    SharedVariable var_id
  | NumpyArray 'a
  | Callable "shape \<Rightarrow> 'a"
  | NoParam

text \<open>
  Modelled from the spec: \<open>create_param\<close>, missing with the submodule \<open>base\<close>. It returns
  the parameter variable, if any, and the store of shared variables: a shared variable is
  used unchanged; for an array a new shared variable is created and initialized with the
  array; a callable is called with the desired shape and a new shared variable is
  initialized with what it returns; for \<open>None\<close> the parameter variable is omitted.
\<close>

fun create_param :: "'a param_spec \<Rightarrow> shape \<Rightarrow> 'a list \<Rightarrow> var_id option \<times> 'a list" where
  "create_param (SharedVariable v) sh vars = (Some v, vars)"
| "create_param (NumpyArray a) sh vars = (Some (length vars), vars @ [a])"
| "create_param (Callable f) sh vars = (Some (length vars), vars @ [f sh])"
| "create_param NoParam sh vars = (None, vars)"

subsection \<open>Layer objects and networks\<close>

text \<open>
  Modelled from the spec: the layer objects, whose classes are missing with the
  submodules. A layer is an input layer with the shape of the input data, or a layer that
  takes its input from other layers, referenced by their identity. Its output is a
  function of the outputs of its input layers and of the keyword arguments; a layer with
  stochastic behaviour (a noise layer such as dropout) has in addition the output it
  computes from a source of randomness.
\<close>

datatype ('t, 'r) layer =
    InputLayer shape
  | PlainLayer "layer_id list" "'t list \<Rightarrow> kwargs \<Rightarrow> 't"
  | NoiseLayer "layer_id list" "'t list \<Rightarrow> kwargs \<Rightarrow> 't" "'r \<Rightarrow> 't list \<Rightarrow> kwargs \<Rightarrow> 't"

text \<open>
  Modelled from the spec: the input layers that a layer object references, an attribute
  of the missing layer classes. An input layer has none.
\<close>

fun input_layers :: "('t, 'r) layer \<Rightarrow> layer_id list" where
  "input_layers (InputLayer sh) = []"
| "input_layers (PlainLayer ins f) = ins"
| "input_layers (NoiseLayer ins d s) = ins"

text \<open>
  Modelled from the spec: constructing a layer, missing with the submodules. The layer
  objects constructed so far are kept in construction order, so the identity of a layer
  is its position. A constructor is given layer objects that exist already as input
  layers, and the new layer is added after them.
\<close>

definition add_layer ::
  "('t, 'r) layer \<Rightarrow> ('t, 'r) layer list \<Rightarrow> ('t, 'r) layer list option" where
  "add_layer l ls =
    (if list_all (\<lambda>j. j < length ls) (input_layers l) then Some (ls @ [l]) else None)"

text \<open>
  Modelled from the spec: building a network, that is the calls of the missing layer
  constructors one after the other, starting with no layer.
\<close>

fun build_from ::
  "('t, 'r) layer list \<Rightarrow> ('t, 'r) layer list \<Rightarrow> ('t, 'r) layer list option" where
  "build_from ls [] = Some ls"
| "build_from ls (l # rest) =
    (case add_layer l ls of None \<Rightarrow> None | Some ls' \<Rightarrow> build_from ls' rest)"

definition build :: "('t, 'r) layer list \<Rightarrow> ('t, 'r) layer list option" where
  "build specs = build_from [] specs"

text \<open>
  Modelled from the spec: the graph of layer references of the missing layer objects,
  with an edge from a layer to each of its input layers.
\<close>

definition references :: "('t, 'r) layer list \<Rightarrow> (layer_id \<times> layer_id) set" where
  "references ls = {(i, j). i < length ls \<and> j \<in> set (input_layers (ls ! i))}"

text \<open>
  Modelled from the spec: the invariant of the missing constructors, that every layer
  references only layers constructed before it.
\<close>

definition wf_net :: "('t, 'r) layer list \<Rightarrow> bool" where
  "wf_net ls = (\<forall>i < length ls. \<forall>j \<in> set (input_layers (ls ! i)). j < i)"

subsection \<open>Propagating data through layers\<close>

text \<open>
  Modelled from the spec: the \<open>deterministic\<close> keyword argument and \<open>get_output_for\<close>, the
  output of a single layer given its input, both missing with the submodules. An input
  layer yields the network input. Stochastic behaviour is disabled when \<open>deterministic\<close>
  is set to \<open>True\<close>.
\<close>

definition deterministic :: "kwargs \<Rightarrow> bool" where
  "deterministic kw = (kw ''deterministic'' = Some True)"

fun get_output_for :: "('t, 'r) layer \<Rightarrow> 't \<Rightarrow> 't list \<Rightarrow> kwargs \<Rightarrow> 'r \<Rightarrow> 't" where
  "get_output_for (InputLayer sh) inp xs kw r = inp"
| "get_output_for (PlainLayer ins f) inp xs kw r = f xs kw"
| "get_output_for (NoiseLayer ins d s) inp xs kw r =
    (if deterministic kw then d xs kw else s r xs kw)"

text \<open>
  Modelled from the spec: \<open>get_output\<close>, missing with the submodules. It traverses the
  network graph from a layer back to the input layers: the output of a layer is
  \<open>get_output_for\<close> of the outputs of its input layers, and the keyword arguments are
  handed on. Besides the output it yields the record of the \<open>get_output_for\<close> calls made,
  each with the layer and the keyword arguments it received. A reference to a layer that
  does not exist, or to a layer constructed later, has no output.
\<close>

function get_output ::
  "('t, 'r) layer list \<Rightarrow> 't \<Rightarrow> kwargs \<Rightarrow> (layer_id \<Rightarrow> 'r) \<Rightarrow> layer_id
     \<Rightarrow> ('t \<times> (layer_id \<times> kwargs) list) option" where
  "get_output ls inp kw rnd i =
    (if i < length ls \<and> list_all (\<lambda>j. j < i) (input_layers (ls ! i)) then
       (case those (map (get_output ls inp kw rnd) (input_layers (ls ! i))) of
          None \<Rightarrow> None
        | Some rs \<Rightarrow>
            Some (get_output_for (ls ! i) inp (map fst rs) kw (rnd i),
                  concat (map snd rs) @ [(i, kw)]))
     else None)"
  by pat_completeness auto

termination
  by (relation "measure (\<lambda>(ls, inp, kw, rnd, i). i)") (auto simp add: list_all_iff)

declare get_output.simps [simp del]

text \<open>
  A sample network over integers: an input layer, a layer doubling its input, a noise
  layer scaling its input by the random draw unless disabled, and a layer adding the
  two. The input layer serves as input to two layers.
\<close>

definition sample_net :: "(int, int) layer list" where
  "sample_net =
    [ InputLayer [100, 50],
      PlainLayer [0] (\<lambda>xs kw. 2 * sum_list xs),
      NoiseLayer [0] (\<lambda>xs kw. sum_list xs) (\<lambda>r xs kw. r * sum_list xs),
      PlainLayer [1, 2] (\<lambda>xs kw. sum_list xs) ]"

definition eval_kwargs :: kwargs where
  "eval_kwargs = [''deterministic'' \<mapsto> True]"

definition train_kwargs :: kwargs where
  "train_kwargs = [''deterministic'' \<mapsto> False]"

definition draw_a :: "layer_id \<Rightarrow> int" where
  "draw_a i = 0"

definition draw_b :: "layer_id \<Rightarrow> int" where
  "draw_b i = 3"

subsection \<open>Layer constructors with parameters\<close>

text \<open>
  Modelled from the spec: what a layer class declares about one trainable parameter,
  part of the missing layer classes: the short name of the parameter (such as \<open>W\<close> or
  \<open>b\<close>), the desired shape, whether \<open>None\<close> is permitted for it (as for biases), and the
  initializer used when the keyword argument is not given.
\<close>

record 'a param_decl =
  param_name :: name
  param_shape :: shape
  none_permitted :: bool
  default_init :: "shape \<Rightarrow> 'a"

datatype construct_error = ParamRequired name | UnknownVariable name | MissingInputLayer

text \<open>
  Modelled from the spec: the specification in force for a declared parameter of the
  missing constructors: the keyword argument that matches the parameter name, or else
  the default initializer, which is a callable.
\<close>

definition given_spec :: "(name \<rightharpoonup> 'a param_spec) \<Rightarrow> 'a param_decl \<Rightarrow> 'a param_spec" where
  "given_spec given d =
    (case given (param_name d) of None \<Rightarrow> Callable (default_init d) | Some s \<Rightarrow> s)"

text \<open>
  Modelled from the spec: which specifications the missing constructors accept. A shared
  variable must exist before the constructor is called (\<open>n0\<close> is the number of shared
  variables then), and \<open>None\<close> is accepted only where it is permitted.
\<close>

fun check_spec :: "nat \<Rightarrow> 'a param_decl \<Rightarrow> 'a param_spec \<Rightarrow> construct_error option" where
  "check_spec n0 d (SharedVariable v) =
    (if v < n0 then None else Some (UnknownVariable (param_name d)))"
| "check_spec n0 d NoParam =
    (if none_permitted d then None else Some (ParamRequired (param_name d)))"
| "check_spec n0 d _ = None"

text \<open>
  Modelled from the spec: the part of a missing constructor that initializes the declared
  parameters one after the other with \<open>create_param\<close>, and records under each parameter
  name the parameter variable, if any.
\<close>

fun init_params ::
  "nat \<Rightarrow> 'a param_decl list \<Rightarrow> (name \<rightharpoonup> 'a param_spec) \<Rightarrow> 'a list
     \<Rightarrow> construct_error + ((name \<times> var_id option) list \<times> 'a list)" where
  "init_params n0 [] given vars = Inr ([], vars)"
| "init_params n0 (d # ds) given vars =
    (case check_spec n0 d (given_spec given d) of
       Some e \<Rightarrow> Inl e
     | None \<Rightarrow>
         (case create_param (given_spec given d) (param_shape d) vars of
            (r, vars1) \<Rightarrow>
              (case init_params n0 ds given vars1 of
                 Inl e \<Rightarrow> Inl e
               | Inr (ps, vars') \<Rightarrow> Inr ((param_name d, r) # ps, vars'))))"

text \<open>
  Modelled from the spec: a layer constructor, missing with the submodules. The state is
  the layer objects constructed so far and the shared variables. A layer class is given
  by the parameters it declares; its constructor takes the keyword arguments for them
  and the layer, which names its input layers. It yields the identity of the new layer,
  the parameter variables of the layer by name, and the new state.
\<close>

record ('t, 'r, 'a) network =
  net_layers :: "('t, 'r) layer list"
  net_vars :: "'a list"

definition construct_layer ::
  "'a param_decl list \<Rightarrow> (name \<rightharpoonup> 'a param_spec) \<Rightarrow> ('t, 'r) layer
     \<Rightarrow> ('t, 'r, 'a) network
     \<Rightarrow> construct_error + (layer_id \<times> (name \<times> var_id option) list \<times> ('t, 'r, 'a) network)" where
  "construct_layer decls given l net =
    (case add_layer l (net_layers net) of
       None \<Rightarrow> Inl MissingInputLayer
     | Some ls' \<Rightarrow>
         (case init_params (length (net_vars net)) decls given (net_vars net) of
            Inl e \<Rightarrow> Inl e
          | Inr (ps, vars') \<Rightarrow>
              Inr (length (net_layers net), ps, \<lparr>net_layers = ls', net_vars = vars'\<rparr>)))"

text \<open>
  The outcome for one parameter, by the form of its specification: \<open>r\<close> is the parameter
  variable, \<open>n0\<close> the number of shared variables before the constructor was called,
  \<open>n\<close> a bound from which new variables are numbered and \<open>vars'\<close> the shared variables
  afterwards.
\<close>

definition param_outcome ::
  "'a param_decl \<Rightarrow> 'a param_spec \<Rightarrow> var_id option \<Rightarrow> nat \<Rightarrow> nat \<Rightarrow> 'a list \<Rightarrow> bool" where
  "param_outcome d spec r n0 n vars' =
    (case spec of
       SharedVariable v \<Rightarrow> r = Some v \<and> v < n0
     | NumpyArray a \<Rightarrow> (\<exists>v. r = Some v \<and> n \<le> v \<and> v < length vars' \<and> vars' ! v = a)
     | Callable f \<Rightarrow>
         (\<exists>v. r = Some v \<and> n \<le> v \<and> v < length vars' \<and> vars' ! v = f (param_shape d))
     | NoParam \<Rightarrow> r = None \<and> none_permitted d)"

text \<open>
  A sample layer class after the dense layer of the documentation: a weight matrix \<open>W\<close>,
  for which \<open>None\<close> is not permitted, and a bias vector \<open>b\<close>, for which it is; arrays are
  lists of integers. The sample states hold an input layer, then a dense layer made from
  an array and without biases, then a second one that shares the weights of the first.
\<close>

definition dense_params :: "int list param_decl list" where
  "dense_params =
    [ \<lparr>param_name = ''W'', param_shape = [2, 1], none_permitted = False,
        default_init = (\<lambda>sh. replicate (prod_list sh) 0)\<rparr>,
      \<lparr>param_name = ''b'', param_shape = [1], none_permitted = True,
        default_init = (\<lambda>sh. replicate (prod_list sh) 0)\<rparr> ]"

definition input_only :: "(int, int, int list) network" where
  "input_only = \<lparr>net_layers = [InputLayer [100, 50]], net_vars = []\<rparr>"

definition one_dense :: "(int, int, int list) network" where
  "one_dense = \<lparr>net_layers = [InputLayer [100, 50], sample_net ! 1], net_vars = [[7, 8]]\<rparr>"

definition two_dense :: "(int, int, int list) network" where
  "two_dense =
    \<lparr>net_layers = [InputLayer [100, 50], sample_net ! 1, sample_net ! 2],
     net_vars = [[7, 8], [0]]\<rparr>"

subsection \<open>The methods that the documentation names\<close>




section \<open>Properties of the module body\<close>

lemma body_stmts_module_body: "body_stmts (module_body doc) = module_body doc"
  by (simp add: body_stmts_def module_body_def)

text \<open>
  Claim C2. The module has no algorithmic core: its body is the documentation string
  followed by import statements only, and at no nesting depth does it define a function,
  a class or a variable of its own.
\<close>

theorem layers_body_is_docstring_and_imports:
  "module_body doc = Expr (Str doc) # tl (module_body doc)
   \<and> list_all is_import (tl (module_body doc))
   \<and> length (module_body doc) = 11
   \<and> filter is_function_def (body_stmts (module_body doc)) = []
   \<and> filter is_class_def (body_stmts (module_body doc)) = []
   \<and> filter is_variable_binding (body_stmts (module_body doc)) = []"
  by (simp add: body_stmts_module_body) (simp add: module_body_def)

text \<open>
  Claim C7. The module defines no error taxonomy: at no nesting depth does it raise or
  assert, define a class (so no exception type), handle an exception or branch; the
  only expression in it is the documentation string, so whatever it says about error
  conditions it says as prose there.
\<close>

theorem layers_no_error_taxonomy:
  "filter is_raise (body_stmts (module_body doc)) = []
   \<and> filter is_class_def (body_stmts (module_body doc)) = []
   \<and> filter is_error_handler (body_stmts (module_body doc)) = []
   \<and> filter is_branch (body_stmts (module_body doc)) = []
   \<and> body_exprs (module_body doc) = [Str doc]"
  by (simp add: body_exprs_def body_stmts_module_body) (simp add: module_body_def)

text \<open>
  The text of the module holds no asynchronous statement, no \<open>with\<close> block, no call,
  no \<open>await\<close> or \<open>yield\<close> and no import that leaves the package, and its body is a
  straight sequence of statements. This is a fact about the eleven statements of the
  package module only; what the submodules do is outside it.
\<close>

lemma layers_body_has_no_async_construct:
  "filter is_async (body_stmts (module_body doc)) = []
   \<and> filter is_with (body_stmts (module_body doc)) = []
   \<and> filter is_call (body_exprs (module_body doc)) = []
   \<and> filter is_await (body_exprs (module_body doc)) = []
   \<and> filter leaves_package (imports_of (module_body doc)) = []
   \<and> filter is_branch (body_stmts (module_body doc)) = []"
  by (simp add: body_exprs_def imports_of_def body_stmts_module_body)
     (simp add: module_body_def)

section \<open>Properties of importing the package\<close>

subsection \<open>Loading submodules\<close>

lemma load_effect_refl: "load_effect dir st st"
  by (simp add: load_effect_def)

lemma load_effect_trans:
  "load_effect dir st st1 \<Longrightarrow> load_effect dir st1 st2 \<Longrightarrow> load_effect dir st st2"
  unfolding load_effect_def by (intro conjI) (blast, (simp, blast), blast)

lemma map_of_remove_module:
  "map_of (remove_module m dir) x = (if x = m then None else map_of dir x)"
  unfolding remove_module_def by (induction dir) auto

lemma load_submodule_effect:
  "load_submodule dir m st = Inr st' \<Longrightarrow> load_effect dir st st' \<and> m \<in> set (loaded st')"
  and load_siblings_effect:
  "load_siblings dir ds st = Inr st' \<Longrightarrow> load_effect dir st st' \<and> set ds \<subseteq> set (loaded st')"
proof (induction dir m st and dir ds st arbitrary: st' and st'
    rule: load_submodule_load_siblings.induct)
  case (1 dir m st)
  show ?case
  proof (cases "m \<in> set (loaded st)")
    case True
    with "1.prems" show ?thesis
      by (simp add: load_submodule.simps [of dir m st] load_effect_refl)
  next
    case False
    with "1.prems" obtain sub st1 md where sub: "map_of dir m = Some sub"
      and sib: "load_siblings (remove_module m dir) (sibling_imports sub)
                  (st\<lparr>loaded := m # loaded st\<rparr>) = Inr st1"
      and out: "outcome sub = Inr md"
      and st': "st' = st1\<lparr>package_ns := (package_ns st1)(m \<mapsto> PyModule m)\<rparr>"
      by (auto simp add: load_submodule.simps [of dir m st] split: option.splits sum.splits)
    from "1.IH" [OF False sub sib]
    have e: "load_effect (remove_module m dir) (st\<lparr>loaded := m # loaded st\<rparr>) st1" by simp
    have "load_effect dir st st'"
      unfolding load_effect_def
    proof (intro conjI ballI allI)
      show "set (loaded st) \<subseteq> set (loaded st')"
        using e by (auto simp add: load_effect_def st')
    next
      fix n
      show "package_ns st' n =
          (if n \<in> set (loaded st') \<and> n \<notin> set (loaded st) then Some (PyModule n)
           else package_ns st n)"
        using e False by (auto simp add: load_effect_def st')
    next
      fix x
      assume x: "x \<in> set (loaded st') - set (loaded st)"
      show "\<exists>sub md. map_of dir x = Some sub \<and> outcome sub = Inr md"
      proof (cases "x = m")
        case True
        with sub out show ?thesis by simp
      next
        case False
        with x e have "\<exists>sub md. map_of (remove_module m dir) x = Some sub \<and> outcome sub = Inr md"
          by (auto simp add: load_effect_def st')
        with False show ?thesis by (simp add: map_of_remove_module)
      qed
    qed
    moreover have "m \<in> set (loaded st')"
      using e by (auto simp add: load_effect_def st')
    ultimately show ?thesis by simp
  qed
next
  case (2 dir st)
  then show ?case by (simp add: load_effect_refl)
next
  case (3 dir d ds st)
  from "3.prems" obtain st1 where a: "load_submodule dir d st = Inr st1"
    and b: "load_siblings dir ds st1 = Inr st'"
    by (auto split: sum.splits)
  from "3.IH"(1) [OF a] have e1: "load_effect dir st st1" and d: "d \<in> set (loaded st1)" by simp_all
  from "3.IH"(2) [OF a b] have e2: "load_effect dir st1 st'" and ds: "set ds \<subseteq> set (loaded st')"
    by simp_all
  from e1 e2 have "load_effect dir st st'" by (rule load_effect_trans)
  moreover have "d \<in> set (loaded st')" using d e2 by (auto simp add: load_effect_def)
  ultimately show ?case using ds by simp
qed

subsection \<open>Running star imports\<close>

lemma exec_stmt_star_import:
  "exec_stmt dir (star_import m) st =
    (case load_submodule dir m st of
       Inl e \<Rightarrow> Inl e
     | Inr st' \<Rightarrow>
         (case submodule_exports dir m of
            Inl e \<Rightarrow> Inl e
          | Inr ex \<Rightarrow> Inr (st'\<lparr>package_ns := package_ns st' ++ ex\<rparr>)))"
  by (simp add: star_import_def)

lemma exec_body_append:
  "exec_body dir (xs @ ys) st =
    (case exec_body dir xs st of Inl e \<Rightarrow> Inl e | Inr st1 \<Rightarrow> exec_body dir ys st1)"
  by (induction xs arbitrary: st) (auto split: sum.splits)

lemma star_step_effect:
  assumes "exec_stmt dir (star_import m) st = Inr st'"
  shows "set (loaded st) \<subseteq> set (loaded st')"
    and "m \<in> set (loaded st')"
    and "\<forall>x \<in> set (loaded st') - set (loaded st).
           \<exists>sub md. map_of dir x = Some sub \<and> outcome sub = Inr md"
    and "submodule_exports dir m = Inr (exports_of dir m)"
    and "package_ns st' n =
      (case exports_of dir m n of
         Some v \<Rightarrow> Some v
       | None \<Rightarrow>
           (if n \<in> set (loaded st') \<and> n \<notin> set (loaded st) then Some (PyModule n)
            else package_ns st n))"
proof -
  from assms obtain st1 ex where l: "load_submodule dir m st = Inr st1"
    and ex: "submodule_exports dir m = Inr ex"
    and st': "st' = st1\<lparr>package_ns := package_ns st1 ++ ex\<rparr>"
    by (auto simp add: exec_stmt_star_import split: sum.splits)
  from load_submodule_effect [OF l] have e: "load_effect dir st st1" and m: "m \<in> set (loaded st1)"
    by simp_all
  have eo: "exports_of dir m = ex" by (simp add: exports_of_def ex)
  show "set (loaded st) \<subseteq> set (loaded st')" using e by (simp add: load_effect_def st')
  show "m \<in> set (loaded st')" using m by (simp add: st')
  show "\<forall>x \<in> set (loaded st') - set (loaded st).
           \<exists>sub md. map_of dir x = Some sub \<and> outcome sub = Inr md"
    using e by (simp add: load_effect_def st')
  show "submodule_exports dir m = Inr (exports_of dir m)" using ex eo by simp
  show "package_ns st' n =
      (case exports_of dir m n of
         Some v \<Rightarrow> Some v
       | None \<Rightarrow>
           (if n \<in> set (loaded st') \<and> n \<notin> set (loaded st) then Some (PyModule n)
            else package_ns st n))"
    using e by (auto simp add: load_effect_def st' eo map_add_def split: option.splits)
qed

lemma run_effect:
  assumes "exec_body dir (map star_import ms) st = Inr st'"
  shows "set (loaded st) \<subseteq> set (loaded st')
    \<and> set ms \<subseteq> set (loaded st')
    \<and> (\<forall>x \<in> set (loaded st') - set (loaded st).
           \<exists>sub md. map_of dir x = Some sub \<and> outcome sub = Inr md)
    \<and> (\<forall>m \<in> set ms. submodule_exports dir m = Inr (exports_of dir m))"
  using assms
proof (induction ms arbitrary: st)
  case Nil
  then show ?case by simp
next
  case (Cons m ms)
  from Cons.prems obtain st1 where a: "exec_stmt dir (star_import m) st = Inr st1"
    and b: "exec_body dir (map star_import ms) st1 = Inr st'"
    by (auto split: sum.splits)
  note s = star_step_effect(1-4) [OF a]
  note ih = Cons.IH [OF b]
  show ?case
  proof (intro conjI ballI)
    show "set (loaded st) \<subseteq> set (loaded st')" using s(1) ih by blast
    show "set (m # ms) \<subseteq> set (loaded st')" using s(2) ih by auto
    show "\<exists>sub md. map_of dir x = Some sub \<and> outcome sub = Inr md"
      if "x \<in> set (loaded st') - set (loaded st)" for x
      using that s(3) ih by (cases "x \<in> set (loaded st1)") auto
    show "submodule_exports dir x = Inr (exports_of dir x)" if "x \<in> set (m # ms)" for x
      using that s(4) ih by auto
  qed
qed

lemma up_to_last_snoc:
  "up_to_last P (xs @ [x]) = (if P x then xs @ [x] else up_to_last P xs)"
  by (simp add: up_to_last_def)

lemma up_to_last_prefix: "\<exists>rest. xs = up_to_last P xs @ rest"
proof -
  have "rev xs = takeWhile (\<lambda>x. \<not> P x) (rev xs) @ dropWhile (\<lambda>x. \<not> P x) (rev xs)" by simp
  then have "xs = rev (dropWhile (\<lambda>x. \<not> P x) (rev xs)) @ rev (takeWhile (\<lambda>x. \<not> P x) (rev xs))"
    by (metis rev_append rev_rev_ident)
  then show ?thesis unfolding up_to_last_def by blast
qed

lemma loaded_after_prefix:
  assumes "exec_body dir (map star_import ms) st = Inr st'"
  shows "set (loaded_after dir (up_to_last P ms) st) \<subseteq> set (loaded st')"
proof -
  obtain rest where r: "ms = up_to_last P ms @ rest" using up_to_last_prefix by blast
  from assms have "exec_body dir (map star_import (up_to_last P ms) @ map star_import rest) st = Inr st'"
    using r by (metis map_append)
  then obtain st1 where a: "exec_body dir (map star_import (up_to_last P ms)) st = Inr st1"
    and b: "exec_body dir (map star_import rest) st1 = Inr st'"
    by (auto simp add: exec_body_append split: sum.splits)
  from run_effect [OF b] have "set (loaded st1) \<subseteq> set (loaded st')" by simp
  then show ?thesis by (simp add: loaded_after_def a)
qed

lemma run_lookup:
  "exec_body dir (map star_import ms) st = Inr st' \<Longrightarrow>
   package_ns st' n =
     (if n \<in> set (loaded st')
         \<and> n \<notin> set (loaded_after dir (up_to_last (\<lambda>m. exports_of dir m n \<noteq> None) ms) st)
      then Some (PyModule n)
      else (case find (\<lambda>m. exports_of dir m n \<noteq> None) (rev ms) of
              Some m \<Rightarrow> exports_of dir m n
            | None \<Rightarrow> package_ns st n))"
proof (induction ms arbitrary: st' rule: rev_induct)
  case Nil
  then show ?case by (simp add: up_to_last_def loaded_after_def)
next
  case (snoc m ms)
  let ?P = "\<lambda>m. exports_of dir m n \<noteq> None"
  from snoc.prems obtain st1 where a: "exec_body dir (map star_import ms) st = Inr st1"
    and b: "exec_stmt dir (star_import m) st1 = Inr st'"
    by (auto simp add: exec_body_append split: sum.splits)
  note ih = snoc.IH [OF a]
  note s = star_step_effect [OF b]
  show ?case
  proof (cases "?P m")
    case True
    have "loaded_after dir (ms @ [m]) st = loaded st'"
      using snoc.prems by (simp add: loaded_after_def)
    with True s(5) [of n] show ?thesis by (auto simp add: up_to_last_snoc)
  next
    case False
    have sub: "set (loaded_after dir (up_to_last ?P ms) st) \<subseteq> set (loaded st1)"
      using a by (rule loaded_after_prefix)
    from False have e: "exports_of dir m n = None" by simp
    show ?thesis
      using s(1) s(5) [of n] ih sub False
      by (auto simp add: up_to_last_snoc e)
  qed
qed

subsection \<open>The package namespace\<close>

lemma module_body_stars:
  "module_body doc = Expr (Str doc) # map star_import layer_submodules"
  by (simp add: module_body_def layer_submodules_def star_import_def)

lemma import_layers_stars:
  "import_layers dir init doc =
     exec_body dir (map star_import layer_submodules) (initial_state init (module_body doc))"
  by (simp add: import_layers_def import_module_def module_body_stars)

lemma initial_state_layers:
  "initial_state init (module_body doc) = \<lparr>loaded = [], package_ns = init(''__doc__'' \<mapsto> PyStr doc)\<rparr>"
  by (simp add: initial_state_def module_body_def)

lemmas eval_simps = import_layers_stars initial_state_layers layer_submodules_def
  exec_stmt_star_import load_submodule.simps submodule_exports_def star_exports_def
  plain_submodule_def remove_module_def is_public_def

lemma sample_import_loaded:
  "map_sum id loaded (import_layers sample_dir empty_ns ''doc'') =
     Inr [''normalization'', ''merge'', ''shape'', ''pool'', ''conv'', ''noise'', ''dense'',
          ''input'', ''helper'', ''base'']"
  by (simp add: eval_simps sample_dir_def)


lemma sibling_values:
  "map_sum id (\<lambda>st. map (package_ns st) [''merge'', ''shape'', ''helper'', ''base'', ''conv'', ''_m''])
     (import_layers sibling_dir empty_ns ''doc'') =
   Inr [Some (PyObj 2), Some (PyObj 100), Some (PyObj 99), Some (PyModule ''base''),
        Some (PyModule ''conv''), None]"
  by (simp add: eval_simps sibling_dir_def empty_ns_def map_add_def)

lemma failing_import:
  "import_layers failing_dir empty_ns ''doc'' = Inl (Raised ''ValueError'')"
  by (simp add: eval_simps failing_dir_def)

lemma import_layers_lookup:
  assumes "import_layers dir init doc = Inr st"
  shows "package_ns st n =
    (if n \<in> set (loaded st)
        \<and> n \<notin> set (loaded_after dir
              (up_to_last (\<lambda>m. exports_of dir m n \<noteq> None) layer_submodules)
              (initial_state init (module_body doc)))
     then Some (PyModule n)
     else (case find (\<lambda>m. exports_of dir m n \<noteq> None) (rev layer_submodules) of
             Some m \<Rightarrow> exports_of dir m n
           | None \<Rightarrow> (init(''__doc__'' \<mapsto> PyStr doc)) n))"
proof -
  have ps: "package_ns (initial_state init (module_body doc)) = init(''__doc__'' \<mapsto> PyStr doc)"
    by (simp add: initial_state_layers)
  from assms have
    "exec_body dir (map star_import layer_submodules) (initial_state init (module_body doc)) = Inr st"
    by (simp add: import_layers_stars)
  from run_lookup [OF this, of n] show ?thesis unfolding ps .
qed







lemma load_supported:
  "load_submodule dir m st \<noteq> Inl Unsupported"
  and load_siblings_supported: "load_siblings dir ds st \<noteq> Inl Unsupported"
proof (induction dir m st and dir ds st rule: load_submodule_load_siblings.induct)
  case (1 dir m st)
  then show ?case
    by (auto simp add: load_submodule.simps [of dir m st] split: option.splits sum.splits)
next
  case (2 dir st)
  then show ?case by simp
next
  case (3 dir d ds st)
  then show ?case by (auto split: sum.splits)
qed

lemma submodule_exports_supported: "submodule_exports dir m \<noteq> Inl Unsupported"
  by (auto simp add: submodule_exports_def star_exports_def split: option.splits sum.splits)

lemma exec_body_stars_supported:
  "exec_body dir (map star_import ms) st \<noteq> Inl Unsupported"
proof (induction ms arbitrary: st)
  case Nil
  then show ?case by simp
next
  case (Cons m ms)
  then show ?case
    using load_supported [of dir m st] submodule_exports_supported [of dir m]
    by (auto simp add: exec_stmt_star_import split: sum.splits)
qed

lemma import_layers_loaded:
  assumes "import_layers dir init doc = Inr st"
  shows "set layer_submodules \<subseteq> set (loaded st)"
    and "\<forall>x \<in> set (loaded st). \<exists>sub md. map_of dir x = Some sub \<and> outcome sub = Inr md"
proof -
  from assms have r:
    "exec_body dir (map star_import layer_submodules) (initial_state init (module_body doc)) = Inr st"
    by (simp add: import_layers_stars)
  from run_effect [OF r] show "set layer_submodules \<subseteq> set (loaded st)" by simp
  from run_effect [OF r]
  show "\<forall>x \<in> set (loaded st). \<exists>sub md. map_of dir x = Some sub \<and> outcome sub = Inr md"
    by (simp add: initial_state_def)
qed

lemma import_layers_reexports:
  assumes "import_layers dir init doc = Inr st" and "m \<in> set layer_submodules"
    and "exports_of dir m n \<noteq> None"
  shows "package_ns st n \<noteq> None"
proof -
  let ?P = "\<lambda>m. exports_of dir m n \<noteq> None"
  have "m \<in> set (rev layer_submodules)" using assms(2) by simp
  with assms(3) obtain m' where f: "find ?P (rev layer_submodules) = Some m'"
    by (cases "find ?P (rev layer_submodules)") (auto simp add: find_None_iff)
  then have "?P m'" by (auto simp add: find_Some_iff)
  with f import_layers_lookup [OF assms(1), of n] show ?thesis by (auto split: if_splits)
qed

text \<open>
  Claim C1. The module re-exports, by wildcard import, exactly the ten submodules base,
  helper, input, dense, noise, conv, pool, shape, merge, normalization, in that order, and
  performs no other import. Its import requests, collected at every nesting depth, are
  the ten relative wildcard requests and nothing else; the ten import statements are the
  top-level statements that follow the documentation string; importing the package is
  running these ten star imports in this order, within the statement forms that have a
  meaning; and when the import succeeds each of the ten submodules is loaded and every
  name that one of them star-exports is bound in the package namespace.
\<close>

theorem layers_imports_exactly_ten:
  "imports_of (module_body doc) =
     map (\<lambda>m. (Some m, [''*''], 1))
       [''base'', ''helper'', ''input'', ''dense'', ''noise'', ''conv'', ''pool'', ''shape'',
        ''merge'', ''normalization'']
   \<and> star_imported (module_body doc) =
       [''base'', ''helper'', ''input'', ''dense'', ''noise'', ''conv'', ''pool'', ''shape'',
        ''merge'', ''normalization'']
   \<and> module_body doc =
       Expr (Str doc) # map star_import
         [''base'', ''helper'', ''input'', ''dense'', ''noise'', ''conv'', ''pool'', ''shape'',
          ''merge'', ''normalization'']
   \<and> import_layers dir init doc =
       exec_body dir
         (map star_import
           [''base'', ''helper'', ''input'', ''dense'', ''noise'', ''conv'', ''pool'', ''shape'',
            ''merge'', ''normalization''])
         (initial_state init (module_body doc))
   \<and> import_layers dir init doc \<noteq> Inl Unsupported
   \<and> (import_layers dir init doc = Inr st \<longrightarrow>
        set [''base'', ''helper'', ''input'', ''dense'', ''noise'', ''conv'', ''pool'', ''shape'',
             ''merge'', ''normalization''] \<subseteq> set (loaded st)
        \<and> (\<forall>m \<in> set [''base'', ''helper'', ''input'', ''dense'', ''noise'', ''conv'', ''pool'',
                        ''shape'', ''merge'', ''normalization''].
             \<forall>n. exports_of dir m n \<noteq> None \<longrightarrow> package_ns st n \<noteq> None))"
proof -
  have a: "imports_of (module_body doc) =
     map (\<lambda>m. (Some m, [''*''], 1))
       [''base'', ''helper'', ''input'', ''dense'', ''noise'', ''conv'', ''pool'', ''shape'',
        ''merge'', ''normalization'']
   \<and> star_imported (module_body doc) =
       [''base'', ''helper'', ''input'', ''dense'', ''noise'', ''conv'', ''pool'', ''shape'',
        ''merge'', ''normalization'']"
    by (simp add: imports_of_def star_imported_def body_stmts_def) (simp add: module_body_def)
  have b: "import_layers dir init doc \<noteq> Inl Unsupported"
    by (simp add: import_layers_stars exec_body_stars_supported)
  have c: "set layer_submodules \<subseteq> set (loaded st)
        \<and> (\<forall>m \<in> set layer_submodules. \<forall>n. exports_of dir m n \<noteq> None \<longrightarrow> package_ns st n \<noteq> None)"
    if "import_layers dir init doc = Inr st"
    using import_layers_loaded(1) [OF that] import_layers_reexports [OF that] by blast
  show ?thesis
    using a b c module_body_stars [of doc] import_layers_stars [of dir init doc]
    unfolding layer_submodules_def by blast
qed

lemma sample_import:
  "import_layers sample_dir empty_ns ''doc'' =
     Inr (projr (import_layers sample_dir empty_ns ''doc''))"
  using sample_import_loaded by (cases "import_layers sample_dir empty_ns ''doc''") simp_all


lemma sample_exports:
  "exports_of sample_dir m n =
     (if m = ''base'' \<and> n = ''Layer'' then Some (PyObj 0)
      else if m = ''base'' \<and> n = ''f'' then Some (PyObj 2)
      else if m = ''helper'' \<and> n = ''f'' then Some (PyObj 3)
      else if m = ''helper'' \<and> n = ''get_output'' then Some (PyObj 4)
      else None)"
  by (simp add: exports_of_def submodule_exports_def star_exports_def sample_dir_def
      plain_submodule_def is_public_def)

theorem layers_imports_exactly_ten_witness:
  "import_layers sample_dir empty_ns ''doc'' =
     Inr (projr (import_layers sample_dir empty_ns ''doc''))
   \<and> exports_of sample_dir ''base'' ''Layer'' \<noteq> None
   \<and> exports_of sample_dir ''helper'' ''get_output'' \<noteq> None
   \<and> package_ns (projr (import_layers sample_dir empty_ns ''doc'')) ''Layer'' \<noteq> None
   \<and> package_ns (projr (import_layers sample_dir empty_ns ''doc'')) ''get_output'' \<noteq> None
   \<and> ''normalization'' \<in> set (loaded (projr (import_layers sample_dir empty_ns ''doc'')))"
proof -
  let ?st = "projr (import_layers sample_dir empty_ns ''doc'')"
  note t = layers_imports_exactly_ten [where dir = sample_dir and init = empty_ns
      and doc = "''doc''" and st = ?st, THEN conjunct2, THEN conjunct2, THEN conjunct2,
      THEN conjunct2, THEN conjunct2, THEN mp, OF sample_import]
  from t have b: "\<forall>n. exports_of sample_dir ''base'' n \<noteq> None \<longrightarrow> package_ns ?st n \<noteq> None"
    and h: "\<forall>n. exports_of sample_dir ''helper'' n \<noteq> None \<longrightarrow> package_ns ?st n \<noteq> None"
    and n: "''normalization'' \<in> set (loaded ?st)"
    by simp_all
  have eb: "exports_of sample_dir ''base'' ''Layer'' \<noteq> None"
    and eh: "exports_of sample_dir ''helper'' ''get_output'' \<noteq> None"
    by (simp_all add: sample_exports)
  from b eb have "package_ns ?st ''Layer'' \<noteq> None" by blast
  moreover from h eh have "package_ns ?st ''get_output'' \<noteq> None" by blast
  ultimately show ?thesis using sample_import eb eh n by simp
qed


subsection \<open>Failing imports\<close>

lemma import_layers_first_failure:
  assumes "layer_submodules = pre @ m # post"
    and "exec_body dir (map star_import pre) (initial_state init (module_body doc)) = Inr st"
    and "load_submodule dir m st = Inl err"
  shows "import_layers dir init doc = Inl err"
  unfolding import_layers_stars assms(1)
  by (simp add: exec_body_append exec_stmt_star_import assms(2,3))

lemma failing_not_loaded:
  assumes "exec_body dir (map star_import pre) (initial_state init body) = Inr st"
    and "map_of dir m = Some sub" and "outcome sub = Inl e"
  shows "m \<notin> set (loaded st)"
proof
  assume "m \<in> set (loaded st)"
  with run_effect [OF assms(1)] have "\<exists>sub md. map_of dir m = Some sub \<and> outcome sub = Inr md"
    by (simp add: initial_state_def)
  with assms(2,3) show False by simp
qed

text \<open>An exception of the import is one that a submodule or its loading raised.\<close>

lemma load_error_provenance:
  "load_submodule dir m st = Inl err \<Longrightarrow>
     (\<exists>x s e. (x, s) \<in> set dir \<and> outcome s = Inl e \<and> err = Raised e)
     \<or> (\<exists>x. err = ModuleNotFound x)"
  and load_siblings_error_provenance:
  "load_siblings dir ds st = Inl err \<Longrightarrow>
     (\<exists>x s e. (x, s) \<in> set dir \<and> outcome s = Inl e \<and> err = Raised e)
     \<or> (\<exists>x. err = ModuleNotFound x)"
proof (induction dir m st and dir ds st rule: load_submodule_load_siblings.induct)
  case (1 dir m st)
  from "1.prems" have nl: "m \<notin> set (loaded st)"
    by (auto simp add: load_submodule.simps [of dir m st] split: if_splits)
  show ?case
  proof (cases "map_of dir m")
    case None
    with "1.prems" nl show ?thesis by (auto simp add: load_submodule.simps [of dir m st])
  next
    case (Some sub)
    then have mem: "(m, sub) \<in> set dir" by (rule map_of_SomeD)
    show ?thesis
    proof (cases "load_siblings (remove_module m dir) (sibling_imports sub)
                    (st\<lparr>loaded := m # loaded st\<rparr>)")
      case (Inl e')
      with "1.prems" nl Some have "err = e'" by (simp add: load_submodule.simps [of dir m st])
      with "1.IH" [OF nl Some] Inl
      have "(\<exists>x s e. (x, s) \<in> set (remove_module m dir) \<and> outcome s = Inl e \<and> err = Raised e)
          \<or> (\<exists>x. err = ModuleNotFound x)" by simp
      then show ?thesis by (auto simp add: remove_module_def)
    next
      case (Inr st')
      with "1.prems" nl Some obtain e where "outcome sub = Inl e" and "err = Raised e"
        by (auto simp add: load_submodule.simps [of dir m st] split: sum.splits)
      with mem show ?thesis by blast
    qed
  qed
next
  case (2 dir st)
  then show ?case by simp
next
  case (3 dir d ds st)
  show ?case
  proof (cases "load_submodule dir d st")
    case (Inl e')
    with "3.prems" have "err = e'" by simp
    with "3.IH"(1) Inl show ?thesis by simp
  next
    case (Inr st')
    with "3.prems" have "load_siblings dir ds st' = Inl err" by simp
    with "3.IH"(2) Inr show ?thesis by simp
  qed
qed

lemma submodule_exports_error_provenance:
  "submodule_exports dir m = Inl err \<Longrightarrow>
     (\<exists>x s e. (x, s) \<in> set dir \<and> outcome s = Inl e \<and> err = Raised e)
     \<or> (\<exists>x. err = ModuleNotFound x) \<or> (\<exists>n. err = AttributeError n)"
proof (cases "map_of dir m")
  case None
  assume "submodule_exports dir m = Inl err"
  with None show ?thesis by (auto simp add: submodule_exports_def)
next
  case (Some sub)
  assume a: "submodule_exports dir m = Inl err"
  from Some have mem: "(m, sub) \<in> set dir" by (rule map_of_SomeD)
  show ?thesis
  proof (cases "outcome sub")
    case (Inl e)
    with a Some have "err = Raised e" by (simp add: submodule_exports_def)
    with mem Inl show ?thesis by blast
  next
    case (Inr md)
    with a Some have "star_exports md = Inl err" by (simp add: submodule_exports_def)
    then have "\<exists>n. err = AttributeError n"
      by (auto simp add: star_exports_def split: option.splits)
    then show ?thesis by blast
  qed
qed

lemma run_error_provenance:
  "exec_body dir (map star_import ms) st = Inl err \<Longrightarrow>
     (\<exists>x s e. (x, s) \<in> set dir \<and> outcome s = Inl e \<and> err = Raised e)
     \<or> (\<exists>x. err = ModuleNotFound x) \<or> (\<exists>n. err = AttributeError n)"
proof (induction ms arbitrary: st)
  case Nil
  then show ?case by simp
next
  case (Cons m ms)
  show ?case
  proof (cases "load_submodule dir m st")
    case (Inl e')
    with Cons.prems have "err = e'" by (simp add: exec_stmt_star_import)
    with load_error_provenance [of dir m st err] Inl show ?thesis by blast
  next
    case (Inr st1)
    show ?thesis
    proof (cases "submodule_exports dir m")
      case (Inl e')
      with Cons.prems Inr have "err = e'" by (simp add: exec_stmt_star_import)
      with submodule_exports_error_provenance [of dir m err] Inl show ?thesis by blast
    next
      case ex: (Inr ex)
      with Cons.prems Inr
      have "exec_body dir (map star_import ms) (st1\<lparr>package_ns := package_ns st1 ++ ex\<rparr>) = Inl err"
        by (simp add: exec_stmt_star_import)
      then show ?thesis by (rule Cons.IH)
    qed
  qed
qed

text \<open>
  Claim C9. Importing the package loads all ten submodules eagerly: when any of them
  fails to import, the package import fails too and yields no namespace, hence no name
  of any submodule. The exception raised is that of the first import that fails:
  whatever loading that submodule raises once the star imports before it have run,
  and so the exception of the submodule's own body when its sibling imports load. An
  exception of the package import is always one that the body of a submodule raised,
  or that loading a submodule or taking its star-exports raised.
\<close>

theorem layers_import_fails_with_submodule:
  assumes "m \<in> set [''base'', ''helper'', ''input'', ''dense'', ''noise'', ''conv'', ''pool'',
                     ''shape'', ''merge'', ''normalization'']"
    and "map_of dir m = Some sub"
    and "outcome sub = Inl e"
  shows "isl (import_layers dir init doc)
     \<and> ([''base'', ''helper'', ''input'', ''dense'', ''noise'', ''conv'', ''pool'', ''shape'',
          ''merge'', ''normalization''] = pre @ m # post
        \<and> exec_body dir (map star_import pre) (initial_state init (module_body doc)) = Inr st
        \<and> load_submodule dir m st = Inl err
        \<longrightarrow> import_layers dir init doc = Inl err)
     \<and> ([''base'', ''helper'', ''input'', ''dense'', ''noise'', ''conv'', ''pool'', ''shape'',
          ''merge'', ''normalization''] = pre @ m # post
        \<and> exec_body dir (map star_import pre) (initial_state init (module_body doc)) = Inr st
        \<and> load_siblings (remove_module m dir) (sibling_imports sub)
              (st\<lparr>loaded := m # loaded st\<rparr>) = Inr st'
        \<longrightarrow> import_layers dir init doc = Inl (Raised e))
     \<and> (import_layers dir init doc = Inl err'
        \<longrightarrow> (\<exists>x s e'. (x, s) \<in> set dir \<and> outcome s = Inl e' \<and> err' = Raised e')
            \<or> (\<exists>x. err' = ModuleNotFound x) \<or> (\<exists>n. err' = AttributeError n))"
proof (intro conjI impI)
  show "isl (import_layers dir init doc)"
  proof (rule ccontr)
    assume "\<not> isl (import_layers dir init doc)"
    then obtain s where s: "import_layers dir init doc = Inr s"
      by (cases "import_layers dir init doc") auto
    have "m \<in> set layer_submodules" using assms(1) by (simp add: layer_submodules_def)
    with import_layers_loaded [OF s]
    have "\<exists>sub md. map_of dir m = Some sub \<and> outcome sub = Inr md" by blast
    with assms(2,3) show False by simp
  qed
next
  assume "[''base'', ''helper'', ''input'', ''dense'', ''noise'', ''conv'', ''pool'', ''shape'',
          ''merge'', ''normalization''] = pre @ m # post
        \<and> exec_body dir (map star_import pre) (initial_state init (module_body doc)) = Inr st
        \<and> load_submodule dir m st = Inl err"
  then show "import_layers dir init doc = Inl err"
    using import_layers_first_failure [of pre m post dir init doc st err]
    by (simp add: layer_submodules_def)
next
  assume h: "[''base'', ''helper'', ''input'', ''dense'', ''noise'', ''conv'', ''pool'', ''shape'',
          ''merge'', ''normalization''] = pre @ m # post
        \<and> exec_body dir (map star_import pre) (initial_state init (module_body doc)) = Inr st
        \<and> load_siblings (remove_module m dir) (sibling_imports sub)
              (st\<lparr>loaded := m # loaded st\<rparr>) = Inr st'"
  then have r: "exec_body dir (map star_import pre) (initial_state init (module_body doc)) = Inr st"
    by simp
  from failing_not_loaded [OF r assms(2,3)] have "m \<notin> set (loaded st)" .
  with h assms(2,3) have "load_submodule dir m st = Inl (Raised e)"
    by (simp add: load_submodule.simps [of dir m st])
  with h show "import_layers dir init doc = Inl (Raised e)"
    using import_layers_first_failure [of pre m post dir init doc st "Raised e"]
    by (simp add: layer_submodules_def)
next
  assume "import_layers dir init doc = Inl err'"
  then have "exec_body dir (map star_import layer_submodules)
      (initial_state init (module_body doc)) = Inl err'"
    by (simp add: import_layers_stars)
  then show "(\<exists>x s e'. (x, s) \<in> set dir \<and> outcome s = Inl e' \<and> err' = Raised e')
            \<or> (\<exists>x. err' = ModuleNotFound x) \<or> (\<exists>n. err' = AttributeError n)"
    by (rule run_error_provenance)
qed

lemma failing_prefix:
  "map_sum id loaded
     (exec_body failing_dir (map star_import [''base''])
        (initial_state empty_ns (module_body ''doc''))) = Inr [''base'']"
  by (simp add: eval_simps failing_dir_def)

theorem layers_import_fails_with_submodule_witness:
  "''helper'' \<in> set layer_submodules
   \<and> map_of failing_dir ''helper'' = Some \<lparr>sibling_imports = [''base''], outcome = Inl ''ValueError''\<rparr>
   \<and> map_of failing_dir ''conv'' = Some \<lparr>sibling_imports = [], outcome = Inl ''ImportError''\<rparr>
   \<and> isl (import_layers failing_dir empty_ns ''doc'')
   \<and> import_layers failing_dir empty_ns ''doc'' = Inl (Raised ''ValueError'')"
proof -
  have m: "''helper'' \<in> set [''base'', ''helper'', ''input'', ''dense'', ''noise'', ''conv'',
             ''pool'', ''shape'', ''merge'', ''normalization'']" by simp
  have s: "map_of failing_dir ''helper''
      = Some \<lparr>sibling_imports = [''base''], outcome = Inl ''ValueError''\<rparr>"
    and c: "map_of failing_dir ''conv''
      = Some \<lparr>sibling_imports = [], outcome = Inl ''ImportError''\<rparr>"
    by (simp_all add: failing_dir_def)
  have o: "outcome \<lparr>sibling_imports = [''base''], outcome = Inl ''ValueError''\<rparr>
      = (Inl ''ValueError'' :: string + nat module_obj)" by simp
  have p: "[''base'', ''helper'', ''input'', ''dense'', ''noise'', ''conv'', ''pool'', ''shape'',
          ''merge'', ''normalization''] = [''base''] @ ''helper'' # [''input'', ''dense'',
          ''noise'', ''conv'', ''pool'', ''shape'', ''merge'', ''normalization'']" by simp
  obtain st where r: "exec_body failing_dir (map star_import [''base''])
        (initial_state empty_ns (module_body ''doc'')) = Inr st"
    and l: "loaded st = [''base'']"
    using failing_prefix
    by (cases "exec_body failing_dir (map star_import [''base''])
        (initial_state empty_ns (module_body ''doc''))") auto
  have b: "load_siblings (remove_module ''helper'' failing_dir)
      (sibling_imports \<lparr>sibling_imports = [''base''], outcome = Inl ''ValueError''\<rparr>)
      (st\<lparr>loaded := ''helper'' # loaded st\<rparr>) = Inr (st\<lparr>loaded := ''helper'' # loaded st\<rparr>)"
    by (simp add: l load_submodule.simps)
  note t = layers_import_fails_with_submodule [OF m s o, where init = empty_ns
      and doc = "''doc''" and pre = "[''base'']" and st = st
      and st' = "st\<lparr>loaded := ''helper'' # loaded st\<rparr>"
      and post = "[''input'', ''dense'', ''noise'', ''conv'', ''pool'', ''shape'', ''merge'',
                   ''normalization'']"]
  from t have i: "isl (import_layers failing_dir empty_ns ''doc'')" by (rule conjunct1)
  from t [THEN conjunct2, THEN conjunct2, THEN conjunct1] p r b
  have "import_layers failing_dir empty_ns ''doc'' = Inl (Raised ''ValueError'')" by blast
  with i s c show ?thesis by (simp add: layer_submodules_def)
qed

section \<open>Properties of layers and networks\<close>

subsection \<open>Parameters of a constructed layer\<close>

lemma create_param_extends: "create_param spec sh vars = (r, vars1) \<Longrightarrow> \<exists>new. vars1 = vars @ new"
  by (cases spec) auto

lemma init_params_Cons:
  assumes "init_params n0 (d # ds) given vars = Inr (ps, vars')"
  obtains r vars1 ps1 where "check_spec n0 d (given_spec given d) = None"
    and "create_param (given_spec given d) (param_shape d) vars = (r, vars1)"
    and "init_params n0 ds given vars1 = Inr (ps1, vars')"
    and "ps = (param_name d, r) # ps1"
proof -
  obtain r vars1 where cp: "create_param (given_spec given d) (param_shape d) vars = (r, vars1)"
    by (cases "create_param (given_spec given d) (param_shape d) vars") blast
  show thesis
  proof (cases "check_spec n0 d (given_spec given d)")
    case (Some e)
    with assms show ?thesis by simp
  next
    case None
    show ?thesis
    proof (cases "init_params n0 ds given vars1")
      case (Inl e)
      with assms None cp show ?thesis by simp
    next
      case (Inr p)
      obtain ps1 v where p: "p = (ps1, v)" by (cases p) blast
      with assms None cp Inr have "ps = (param_name d, r) # ps1" and "v = vars'" by simp_all
      with None cp Inr p that show ?thesis by simp
    qed
  qed
qed

lemma param_outcome_first:
  assumes "check_spec n0 d spec = None"
    and "create_param spec (param_shape d) vars = (r, vars1)"
    and "vars' = vars1 @ new"
  shows "param_outcome d spec r n0 (length vars) vars'"
proof (cases spec)
  case (SharedVariable v)
  with assms show ?thesis by (simp add: param_outcome_def split: if_splits)
next
  case (NumpyArray a)
  with assms have "r = Some (length vars)" and "vars' = vars @ a # new" by auto
  with NumpyArray show ?thesis by (simp add: param_outcome_def)
next
  case (Callable f)
  with assms have "r = Some (length vars)" and "vars' = vars @ f (param_shape d) # new" by auto
  with Callable show ?thesis by (simp add: param_outcome_def)
next
  case NoParam
  with assms show ?thesis by (simp add: param_outcome_def split: if_splits)
qed

lemma param_outcome_mono:
  "param_outcome d spec r n0 n1 vars' \<Longrightarrow> n \<le> n1 \<Longrightarrow> param_outcome d spec r n0 n vars'"
  by (cases spec) (auto simp add: param_outcome_def)

lemma init_params_effect:
  assumes "init_params n0 decls given vars = Inr (ps, vars')"
    and "distinct (map param_name decls)"
  shows "(\<exists>new. vars' = vars @ new)
    \<and> (\<forall>d \<in> set decls. \<exists>r. map_of ps (param_name d) = Some r
          \<and> param_outcome d (given_spec given d) r n0 (length vars) vars')"
  using assms
proof (induction decls arbitrary: vars ps)
  case Nil
  then show ?case by simp
next
  case (Cons d ds)
  from Cons.prems(1) obtain r vars1 ps1 where chk: "check_spec n0 d (given_spec given d) = None"
    and cp: "create_param (given_spec given d) (param_shape d) vars = (r, vars1)"
    and rest: "init_params n0 ds given vars1 = Inr (ps1, vars')"
    and ps: "ps = (param_name d, r) # ps1"
    by (rule init_params_Cons)
  from cp obtain new1 where v1: "vars1 = vars @ new1" using create_param_extends by blast
  from Cons.prems(2) have dist: "distinct (map param_name ds)"
    and notin: "param_name d \<notin> param_name ` set ds" by simp_all
  note ih = Cons.IH [OF rest dist]
  from ih obtain new2 where v': "vars' = vars1 @ new2" by blast
  have first: "param_outcome d (given_spec given d) r n0 (length vars) vars'"
    using chk cp v' by (rule param_outcome_first)
  have le: "length vars \<le> length vars1" using v1 by simp
  have each: "\<exists>r'. map_of ps (param_name d') = Some r'
          \<and> param_outcome d' (given_spec given d') r' n0 (length vars) vars'"
    if d': "d' \<in> set (d # ds)" for d'
  proof (cases "param_name d' = param_name d")
    case True
    have "d' \<notin> set ds"
    proof
      assume "d' \<in> set ds"
      then have "param_name d' \<in> param_name ` set ds" by (rule imageI)
      with True notin show False by simp
    qed
    with d' have "d' = d" by simp
    with first ps show ?thesis by simp
  next
    case False
    with d' have "d' \<in> set ds" by auto
    with ih obtain r' where m: "map_of ps1 (param_name d') = Some r'"
      and c: "param_outcome d' (given_spec given d') r' n0 (length vars1) vars'"
      by blast
    from c le have "param_outcome d' (given_spec given d') r' n0 (length vars) vars'"
      by (rule param_outcome_mono)
    with m False ps show ?thesis by simp
  qed
  have "\<exists>new. vars' = vars @ new" using v1 v' by simp
  with each show ?case by blast
qed

lemma construct_first:
  "construct_layer dense_params [''W'' \<mapsto> NumpyArray [7, 8], ''b'' \<mapsto> NoParam]
     (sample_net ! 1) input_only = Inr (1, [(''W'', Some 0), (''b'', None)], one_dense)"
  by (simp add: construct_layer_def dense_params_def input_only_def one_dense_def
      sample_net_def add_layer_def given_spec_def)

lemma construct_second:
  "construct_layer dense_params [''W'' \<mapsto> SharedVariable 0] (sample_net ! 2) one_dense
     = Inr (2, [(''W'', Some 0), (''b'', Some 1)], two_dense)"
  by (simp add: construct_layer_def dense_params_def two_dense_def one_dense_def
      sample_net_def add_layer_def given_spec_def)

lemma construct_rejected:
  "construct_layer dense_params [''W'' \<mapsto> NoParam] (sample_net ! 1) input_only
     = Inl (ParamRequired ''W'')"
  by (simp add: construct_layer_def dense_params_def input_only_def
      sample_net_def add_layer_def given_spec_def)

lemma construct_dangling:
  "construct_layer dense_params [''W'' \<mapsto> SharedVariable 5] (sample_net ! 1) input_only
     = Inl (UnknownVariable ''W'')"
  by (simp add: construct_layer_def dense_params_def input_only_def
      sample_net_def add_layer_def given_spec_def)

text \<open>
  Claim C3. For every layer constructor, that is for whatever parameters a layer class
  declares, a trainable parameter is supplied in one of four ways, and when the
  constructor succeeds the outcome for each declared parameter is: a shared variable
  that existed before the call is used unchanged as the parameter variable; for an array
  a new shared variable is created and holds the array; a callable (the default
  initializer when no keyword argument is given) is called with the desired shape and a
  new shared variable holds the values it returns; for \<open>None\<close>, which succeeds only
  where it is permitted, the parameter variable is omitted. No shared variable that
  existed before is changed.
\<close>

theorem create_param_four_ways:
  assumes "construct_layer decls given l net = Inr (i, ps, net')"
    and "distinct (map param_name decls)"
    and "d \<in> set decls"
  shows "\<exists>r. map_of ps (param_name d) = Some r
      \<and> (case (case given (param_name d) of
                  None \<Rightarrow> Callable (default_init d) | Some s \<Rightarrow> s) of
            SharedVariable v \<Rightarrow>
              r = Some v \<and> v < length (net_vars net) \<and> net_vars net' ! v = net_vars net ! v
          | NumpyArray a \<Rightarrow>
              (\<exists>v. r = Some v \<and> length (net_vars net) \<le> v \<and> v < length (net_vars net')
                   \<and> net_vars net' ! v = a)
          | Callable f \<Rightarrow>
              (\<exists>v. r = Some v \<and> length (net_vars net) \<le> v \<and> v < length (net_vars net')
                   \<and> net_vars net' ! v = f (param_shape d))
          | NoParam \<Rightarrow> r = None \<and> none_permitted d)
      \<and> take (length (net_vars net)) (net_vars net') = net_vars net
      \<and> i = length (net_layers net) \<and> net_layers net' = net_layers net @ [l]"
proof -
  from assms(1) obtain ls' vars' where al: "add_layer l (net_layers net) = Some ls'"
    and ip: "init_params (length (net_vars net)) decls given (net_vars net) = Inr (ps, vars')"
    and i: "i = length (net_layers net)"
    and n: "net' = \<lparr>net_layers = ls', net_vars = vars'\<rparr>"
    by (auto simp add: construct_layer_def split: option.splits sum.splits prod.splits)
  from init_params_effect [OF ip assms(2)] assms(3)
  obtain new r where ext: "vars' = net_vars net @ new"
    and m: "map_of ps (param_name d) = Some r"
    and po: "param_outcome d (given_spec given d) r (length (net_vars net))
               (length (net_vars net)) vars'"
    by blast
  have ls: "ls' = net_layers net @ [l]" using al by (auto simp add: add_layer_def split: if_splits)
  have c: "case given_spec given d of
            SharedVariable v \<Rightarrow>
              r = Some v \<and> v < length (net_vars net) \<and> net_vars net' ! v = net_vars net ! v
          | NumpyArray a \<Rightarrow>
              (\<exists>v. r = Some v \<and> length (net_vars net) \<le> v \<and> v < length (net_vars net')
                   \<and> net_vars net' ! v = a)
          | Callable f \<Rightarrow>
              (\<exists>v. r = Some v \<and> length (net_vars net) \<le> v \<and> v < length (net_vars net')
                   \<and> net_vars net' ! v = f (param_shape d))
          | NoParam \<Rightarrow> r = None \<and> none_permitted d"
    using po by (cases "given_spec given d") (auto simp add: param_outcome_def n ext nth_append)
  have t: "take (length (net_vars net)) (net_vars net') = net_vars net" by (simp add: n ext)
  have c': "case (case given (param_name d) of
                  None \<Rightarrow> Callable (default_init d) | Some s \<Rightarrow> s) of
            SharedVariable v \<Rightarrow>
              r = Some v \<and> v < length (net_vars net) \<and> net_vars net' ! v = net_vars net ! v
          | NumpyArray a \<Rightarrow>
              (\<exists>v. r = Some v \<and> length (net_vars net) \<le> v \<and> v < length (net_vars net')
                   \<and> net_vars net' ! v = a)
          | Callable f \<Rightarrow>
              (\<exists>v. r = Some v \<and> length (net_vars net) \<le> v \<and> v < length (net_vars net')
                   \<and> net_vars net' ! v = f (param_shape d))
          | NoParam \<Rightarrow> r = None \<and> none_permitted d"
    using c unfolding given_spec_def .
  have l': "net_layers net' = net_layers net @ [l]" by (simp add: n ls)
  from m c' t i l' show ?thesis by (intro exI [of _ r] conjI)
qed

theorem create_param_four_ways_witness:
  "construct_layer dense_params [''W'' \<mapsto> NumpyArray [7, 8], ''b'' \<mapsto> NoParam]
     (sample_net ! 1) input_only = Inr (1, [(''W'', Some 0), (''b'', None)], one_dense)
   \<and> construct_layer dense_params [''W'' \<mapsto> SharedVariable 0] (sample_net ! 2) one_dense
     = Inr (2, [(''W'', Some 0), (''b'', Some 1)], two_dense)
   \<and> distinct (map param_name dense_params)
   \<and> net_vars two_dense ! 0 = net_vars one_dense ! 0
   \<and> take (length (net_vars one_dense)) (net_vars two_dense) = net_vars one_dense
   \<and> construct_layer dense_params [''W'' \<mapsto> NoParam] (sample_net ! 1) input_only
     = Inl (ParamRequired ''W'')"
proof -
  have d: "distinct (map param_name dense_params)" by (simp add: dense_params_def)
  have w: "dense_params ! 0 \<in> set dense_params" by (simp add: dense_params_def)
  have g: "(case [''W'' \<mapsto> SharedVariable 0] (param_name (dense_params ! 0)) of
              None \<Rightarrow> Callable (default_init (dense_params ! 0))
            | Some s \<Rightarrow> s) = (SharedVariable 0 :: int list param_spec)"
    by (simp add: dense_params_def)
  note t = create_param_four_ways [OF construct_second d w, unfolded g]
  from t have "net_vars two_dense ! 0 = net_vars one_dense ! 0
      \<and> take (length (net_vars one_dense)) (net_vars two_dense) = net_vars one_dense"
    by (elim exE conjE) simp
  with construct_first construct_second construct_rejected d show ?thesis by simp
qed

lemma those_eq_Some: "those xs = Some ys \<longleftrightarrow> xs = map Some ys"
  by (induction xs arbitrary: ys) (auto split: option.splits)


lemma map_Some_ex: "(\<forall>x \<in> set xs. \<exists>r. f x = Some r) \<Longrightarrow> \<exists>rs. map f xs = map Some rs"
proof (induction xs)
  case Nil
  then show ?case by simp
next
  case (Cons x xs)
  then obtain r rs where "f x = Some r" "map f xs = map Some rs" by auto
  then have "map f (x # xs) = map Some (r # rs)" by simp
  then show ?case by blast
qed

subsection \<open>Networks built by the constructors\<close>

lemma add_layer_wf:
  "wf_net ls \<Longrightarrow> add_layer l ls = Some ls' \<Longrightarrow> wf_net ls' \<and> ls' = ls @ [l]"
  by (auto simp add: add_layer_def wf_net_def list_all_iff nth_append less_Suc_eq
      split: if_splits)

lemma build_from_wf: "wf_net ls \<Longrightarrow> build_from ls specs = Some ls' \<Longrightarrow> wf_net ls'"
proof (induction specs arbitrary: ls)
  case Nil
  then show ?case by simp
next
  case (Cons l rest)
  then show ?case by (auto split: option.splits dest: add_layer_wf)
qed

lemma build_from_layers: "build_from ls specs = Some ls' \<Longrightarrow> ls' = ls @ specs"
proof (induction specs arbitrary: ls)
  case Nil
  then show ?case by simp
next
  case (Cons l rest)
  from Cons.prems have "build_from (ls @ [l]) rest = Some ls'"
    by (auto simp add: add_layer_def split: option.splits if_splits)
  from Cons.IH [OF this] show ?case by simp
qed

lemma build_wf: "build specs = Some ls \<Longrightarrow> wf_net ls"
  unfolding build_def by (rule build_from_wf [of "[]"]) (simp_all add: wf_net_def)

lemma wf_net_acyclic: "wf_net ls \<Longrightarrow> acyclic (references ls)"
proof -
  assume w: "wf_net ls"
  have "references ls \<subseteq> {(i, j). j < i}"
    using w by (auto simp add: references_def wf_net_def)
  moreover have "acyclic {(i::nat, j). j < i}"
  proof -
    have "{(i::nat, j). j < i} = (less_than)\<inverse>" by auto
    then show ?thesis by (simp add: wf_acyclic)
  qed
  ultimately show ?thesis by (rule acyclic_subset [rotated])
qed

lemma build_sample_net: "build sample_net = Some sample_net"
  by (simp add: build_def sample_net_def add_layer_def)

subsection \<open>Output computation on built networks\<close>

text \<open>On a network built by the constructors the traversal returns an output.\<close>

lemma get_output_returns:
  "wf_net ls \<Longrightarrow> i < length ls \<Longrightarrow> \<exists>r. get_output ls inp kw rnd i = Some r"
proof (induction i rule: less_induct)
  case (less i)
  have a: "list_all (\<lambda>j. j < i) (input_layers (ls ! i))"
    using less.prems by (auto simp add: wf_net_def list_all_iff)
  have "\<forall>j \<in> set (input_layers (ls ! i)). \<exists>r. get_output ls inp kw rnd j = Some r"
    using less a by (auto simp add: list_all_iff)
  then obtain rs where "map (get_output ls inp kw rnd) (input_layers (ls ! i)) = map Some rs"
    using map_Some_ex by blast
  then have "those (map (get_output ls inp kw rnd) (input_layers (ls ! i))) = Some rs"
    by (simp add: those_eq_Some)
  with a less.prems show ?case
    by (simp add: get_output.simps [of ls inp kw rnd i])
qed




lemma those_map_fst_cong:
  "(\<forall>x \<in> set xs. map_option fst (f x) = map_option fst (g x)) \<Longrightarrow>
   map_option (map fst) (those (map f xs)) = map_option (map fst) (those (map g xs))"
proof (induction xs)
  case Nil
  then show ?case by simp
next
  case (Cons a xs)
  then have h: "map_option fst (f a) = map_option fst (g a)"
    and t: "map_option (map fst) (those (map f xs)) = map_option (map fst) (those (map g xs))"
    by simp_all
  show ?case
    using h t
    by (cases "f a"; cases "g a"; cases "those (map f xs)"; cases "those (map g xs)") auto
qed

lemma get_output_for_deterministic:
  "deterministic kw \<Longrightarrow> get_output_for l inp xs kw r = get_output_for l inp xs kw r'"
  by (cases l) simp_all

lemma get_output_deterministic:
  "deterministic kw \<Longrightarrow>
   map_option fst (get_output ls inp kw rnd i) = map_option fst (get_output ls inp kw rnd' i)"
proof (induction i rule: less_induct)
  case (less i)
  show ?case
  proof (cases "i < length ls \<and> list_all (\<lambda>j. j < i) (input_layers (ls ! i))")
    case False
    then have "get_output ls inp kw r i = None" for r
      by (subst get_output.simps) auto
    then show ?thesis by simp
  next
    case True
    then have "\<forall>j \<in> set (input_layers (ls ! i)).
        map_option fst (get_output ls inp kw rnd j) = map_option fst (get_output ls inp kw rnd' j)"
      using less by (auto simp add: list_all_iff)
    from those_map_fst_cong [OF this]
    have t: "map_option (map fst) (those (map (get_output ls inp kw rnd) (input_layers (ls ! i))))
        = map_option (map fst) (those (map (get_output ls inp kw rnd') (input_layers (ls ! i))))" .
    have e: "get_output ls inp kw r i =
        (case those (map (get_output ls inp kw r) (input_layers (ls ! i))) of
           None \<Rightarrow> None
         | Some rs \<Rightarrow>
            Some (get_output_for (ls ! i) inp (map fst rs) kw (r i),
                  concat (map snd rs) @ [(i, kw)]))" for r
      using True by (subst get_output.simps) simp
    show ?thesis
      using t get_output_for_deterministic [OF less.prems, of "ls ! i" inp _ "rnd i" "rnd' i"]
      by (cases "those (map (get_output ls inp kw rnd) (input_layers (ls ! i)))";
          cases "those (map (get_output ls inp kw rnd') (input_layers (ls ! i)))")
         (auto simp add: e)
  qed
qed

lemma sample_output:
  "get_output sample_net 5 eval_kwargs draw_b 3 =
     Some (15, [(0, eval_kwargs), (1, eval_kwargs), (0, eval_kwargs), (2, eval_kwargs),
                (3, eval_kwargs)])"
  by (simp add: get_output.simps sample_net_def deterministic_def eval_kwargs_def)

text \<open>
  Claim C6. In every network built from layer objects each layer references only layers
  constructed before it, so the graph of layer references has no cycle: no layer reaches
  itself. A layer may serve as input to several layers, as the input layer does in the
  network of three layers given last.
\<close>

theorem built_network_is_dag:
  assumes "build specs = Some (ls :: ('t, 'r) layer list)"
  shows "ls = specs
    \<and> (\<forall>i < length ls. \<forall>j \<in> set (input_layers (ls ! i)). j < i)
    \<and> acyclic (references ls)
    \<and> (\<forall>i. (i, i) \<notin> (references ls)\<^sup>+)
    \<and> (build [InputLayer sh, PlainLayer [0] f, PlainLayer [0] g :: ('t, 'r) layer]
          = Some [InputLayer sh, PlainLayer [0] f, PlainLayer [0] g]
        \<and> (1, 0) \<in> references [InputLayer sh, PlainLayer [0] f, PlainLayer [0] g :: ('t, 'r) layer]
        \<and> (2, 0) \<in> references [InputLayer sh, PlainLayer [0] f, PlainLayer [0] g :: ('t, 'r) layer])"
proof -
  have w: "wf_net ls" using assms by (rule build_wf)
  have e: "ls = specs" using assms build_from_layers [of "[]" specs ls] by (simp add: build_def)
  have a: "acyclic (references ls)" using w by (rule wf_net_acyclic)
  have s: "build [InputLayer sh, PlainLayer [0] f, PlainLayer [0] g :: ('t, 'r) layer]
          = Some [InputLayer sh, PlainLayer [0] f, PlainLayer [0] g]
        \<and> (1, 0) \<in> references [InputLayer sh, PlainLayer [0] f, PlainLayer [0] g :: ('t, 'r) layer]
        \<and> (2, 0) \<in> references [InputLayer sh, PlainLayer [0] f, PlainLayer [0] g :: ('t, 'r) layer]"
    by (simp add: build_def add_layer_def references_def)
  from w e a s show ?thesis by (simp add: wf_net_def acyclic_def)
qed

theorem built_network_is_dag_witness:
  "build sample_net = Some sample_net
   \<and> (1, 0) \<in> references sample_net \<and> (2, 0) \<in> references sample_net
   \<and> (3, 1) \<in> references sample_net \<and> (3, 2) \<in> references sample_net
   \<and> acyclic (references sample_net)
   \<and> build [PlainLayer [0] (\<lambda>xs kw. 0 :: int) :: (int, int) layer] = None"
proof -
  have r: "(1, 0) \<in> references sample_net \<and> (2, 0) \<in> references sample_net
     \<and> (3, 1) \<in> references sample_net \<and> (3, 2) \<in> references sample_net"
    by (simp add: references_def sample_net_def)
  have n: "build [PlainLayer [0] (\<lambda>xs kw. 0 :: int) :: (int, int) layer] = None"
    by (simp add: build_def add_layer_def)
  have "acyclic (references sample_net)"
    using built_network_is_dag [OF build_sample_net, where sh = "[]" and f = "\<lambda>xs kw. 0"
        and g = "\<lambda>xs kw. 0"]
    by simp
  with r n build_sample_net show ?thesis by simp
qed




text \<open>
  Claim C5. With the keyword argument \<open>deterministic\<close> set to \<open>True\<close>, stochastic
  behaviour is disabled: two evaluations of the same built network on the same input
  yield the same output, whatever the two sources of randomness are.
\<close>

theorem deterministic_output_is_reproducible:
  assumes "build specs = Some ls" and "i < length ls" and "kw ''deterministic'' = Some True"
  shows "\<exists>out. map_option fst (get_output ls inp kw rnd i) = Some out
      \<and> map_option fst (get_output ls inp kw rnd' i) = Some out"
proof -
  have w: "wf_net ls" using assms(1) by (rule build_wf)
  from get_output_returns [OF w assms(2)] obtain r
    where "get_output ls inp kw rnd i = Some r" by blast
  then have "map_option fst (get_output ls inp kw rnd i) = Some (fst r)" by simp
  moreover have "deterministic kw" using assms(3) by (simp add: deterministic_def)
  then have "map_option fst (get_output ls inp kw rnd i) = map_option fst (get_output ls inp kw rnd' i)"
    by (rule get_output_deterministic)
  ultimately show ?thesis by auto
qed

theorem deterministic_output_is_reproducible_witness:
  "build sample_net = Some sample_net
   \<and> 3 < length sample_net
   \<and> eval_kwargs ''deterministic'' = Some True
   \<and> map_option fst (get_output sample_net 5 eval_kwargs draw_a 3) = Some 15
   \<and> map_option fst (get_output sample_net 5 eval_kwargs draw_b 3) = Some 15
   \<and> map_option fst (get_output sample_net 5 train_kwargs draw_a 3) = Some 10
   \<and> map_option fst (get_output sample_net 5 train_kwargs draw_b 3) = Some 25"
proof -
  have l: "3 < length sample_net" by (simp add: sample_net_def)
  have d: "eval_kwargs ''deterministic'' = Some True" by (simp add: eval_kwargs_def)
  from build_sample_net l d
    deterministic_output_is_reproducible [where specs = sample_net and ls = sample_net
      and i = 3 and kw = eval_kwargs and inp = 5 and rnd = draw_a and rnd' = draw_b]
  have "map_option fst (get_output sample_net 5 eval_kwargs draw_a 3) = Some 15"
    by (simp add: sample_output)
  moreover have "map_option fst (get_output sample_net 5 train_kwargs draw_a 3) = Some 10"
    by (simp add: get_output.simps sample_net_def deterministic_def train_kwargs_def draw_a_def)
  moreover have "map_option fst (get_output sample_net 5 train_kwargs draw_b 3) = Some 25"
    by (simp add: get_output.simps sample_net_def deterministic_def train_kwargs_def draw_b_def)
  ultimately show ?thesis using build_sample_net l d by (simp add: sample_output)
qed

end
